theory Spec2Isabelle
  imports Complex_Main "HOL-Library.AList" "HOL-Library.Word"
begin

unbundle bit_operations_syntax

section \<open>Python strings\<close>

text \<open>
  Strings are character lists. The characters that Python's \<^verbatim>\<open>str.isspace\<close> accepts
  below code point 256 are the separators of \<^verbatim>\<open>str.split()\<close> and what
  \<^verbatim>\<open>str.strip()\<close> removes.
\<close>

definition is_space :: "char \<Rightarrow> bool" where
  "is_space c = (of_char c \<in> {9, 10, 11, 12, 13, 28, 29, 30, 31, 32, 133, 160 :: nat})"

text \<open>\<^verbatim>\<open>s.split()\<close>: the maximal runs of non-space characters, in order.\<close>

fun split_acc :: "string \<Rightarrow> string \<Rightarrow> string list" where
  "split_acc cur [] = (if cur = [] then [] else [cur])"
| "split_acc cur (c # cs) =
     (if is_space c
      then (if cur = [] then split_acc [] cs else cur # split_acc [] cs)
      else split_acc (cur @ [c]) cs)"

definition split :: "string \<Rightarrow> string list" where
  "split s = split_acc [] s"

text \<open>\<^verbatim>\<open>s.strip()\<close>\<close>

definition strip :: "string \<Rightarrow> string" where
  "strip s = rev (dropWhile is_space (rev (dropWhile is_space s)))"

text \<open>\<^verbatim>\<open>sep.join(xs)\<close>\<close>

fun join :: "string \<Rightarrow> string list \<Rightarrow> string" where
  "join sep [] = []"
| "join sep [x] = x"
| "join sep (x # y # ys) = x @ sep @ join sep (y # ys)"

section \<open>Errors\<close>

text \<open>Every exception the modelled functions raise, as a value.\<close>

datatype error =
    Cannot_find_record nat               \<comment> \<open>ValueError of \<^verbatim>\<open>get_name_record\<close>\<close>
  | Cannot_determine_usWeightClass string \<comment> \<open>ValueError of \<^verbatim>\<open>fix_weight_class\<close>\<close>
  | Not_a_variable_font                  \<comment> \<open>ValueError of \<^verbatim>\<open>fix_fvar_instances\<close>\<close>
  | Cannot_update_variable_font          \<comment> \<open>ValueError of \<^verbatim>\<open>update_nametable\<close>\<close>
  | Multiple_families "string set"       \<comment> \<open>ValueError of \<^verbatim>\<open>_validate_family\<close>\<close>
  | Static_and_variable                  \<comment> \<open>ValueError of \<^verbatim>\<open>family_is_vf\<close>\<close>
  | Axis_order_missing "string set"      \<comment> \<open>ValueError of \<^verbatim>\<open>gen_stat_tables\<close>\<close>
  | Empty_sequence                       \<comment> \<open>ValueError of \<^verbatim>\<open>min\<close> and \<^verbatim>\<open>max\<close>\<close>
  | KeyError string
  | KeyError_int int                     \<comment> \<open>KeyError of a dictionary with numbers as keys\<close>
  | IndexError
  | AttributeError
  | FileNotFoundError

section \<open>Fonts\<close>

text \<open>A record of the name table, as fontTools' \<^verbatim>\<open>NameRecord\<close>, its text decoded.\<close>

record name_record =
  nameID :: nat
  platformID :: nat
  platEncID :: nat
  langID :: nat
  string :: string

record fvar_axis =
  axisTag :: string
  minValue :: rat
  defaultValue :: rat
  maxValue :: rat

record named_instance =
  subfamilyNameID :: nat
  coordinates :: "(string \<times> rat) list"

record fvar_table =
  fvar_axes :: "fvar_axis list"          \<comment> \<open>\<^verbatim>\<open>fvar.axes\<close>\<close>
  fvar_instances :: "named_instance list" \<comment> \<open>\<^verbatim>\<open>fvar.instances\<close>\<close>

text \<open>
  One value of a STAT axis: the dictionary with the keys \<^verbatim>\<open>value\<close>, \<^verbatim>\<open>name\<close>,
  \<^verbatim>\<open>flags\<close> and, when present, \<^verbatim>\<open>linkedValue\<close>. Value and name can be
  \<^verbatim>\<open>None\<close>. Numbers are compared and never computed with, so they are rationals.
\<close>

record axis_value =
  av_value :: "rat option"
  av_name :: "string option"
  av_flags :: int
  linkedValue :: "rat option"

text \<open>One axis of a STAT table: the dictionary with the keys \<^verbatim>\<open>tag\<close>, \<^verbatim>\<open>name\<close>, \<^verbatim>\<open>values\<close>.\<close>

record axis_record =
  ax_tag :: string
  ax_name :: string
  ax_values :: "axis_value list"

text \<open>
  A \<^verbatim>\<open>TTFont\<close>, with the fields the fixes read or write. The tables name, OS/2, head,
  hhea and post are always there; fvar, DSIG, gasp, prep and STAT are optional; the
  tables whose content no fix reads (fpgm, MVAR and the other unwanted ones) are known
  by their tags only.
\<close>

record font =
  names :: "name_record list"            \<comment> \<open>\<^verbatim>\<open>font["name"].names\<close>\<close>
  fvar :: "fvar_table option"
  os2_version :: int                     \<comment> \<open>\<^verbatim>\<open>font["OS/2"].version\<close>\<close>
  fsType :: int
  fsSelection :: int
  usWeightClass :: int
  achVendID :: string
  usWinAscent :: int
  usWinDescent :: int
  sTypoAscender :: int
  sTypoDescender :: int
  sTypoLineGap :: int
  head_flags :: int                      \<comment> \<open>\<^verbatim>\<open>font["head"].flags\<close>\<close>
  macStyle :: int
  yMin :: int
  yMax :: int
  fontRevision_3f :: string              \<comment> \<open>\<^verbatim>\<open>f'{font["head"].fontRevision:.3f}'\<close>\<close>
  ascent :: int                          \<comment> \<open>\<^verbatim>\<open>font["hhea"].ascent\<close>\<close>
  descent :: int
  lineGap :: int
  italicAngle :: rat                     \<comment> \<open>\<^verbatim>\<open>font["post"].italicAngle\<close>\<close>
  DSIG :: "(int \<times> int \<times> int) option"    \<comment> \<open>ulVersion, usFlag, usNumSigs\<close>
  gasp :: "(int \<times> int) list option"      \<comment> \<open>\<^verbatim>\<open>gaspRange\<close>\<close>
  prep :: "string list option"           \<comment> \<open>the assembly of the program\<close>
  other_tables :: "string list"
  STAT :: "axis_record list option"      \<comment> \<open>what \<^verbatim>\<open>buildStatTable\<close> was given\<close>

subsection \<open>The name table\<close>

text \<open>\<^verbatim>\<open>name.getName(nameID, platformID, platEncID, langID)\<close>: the first such record.\<close>

definition getName :: "name_record list \<Rightarrow> nat \<Rightarrow> nat \<Rightarrow> nat \<Rightarrow> nat \<Rightarrow> name_record option" where
  "getName recs n p e l =
     find (\<lambda>r. nameID r = n \<and> platformID r = p \<and> platEncID r = e \<and> langID r = l) recs"

text \<open>An optional integer argument is false when it is \<^verbatim>\<open>None\<close> or 0.\<close>

definition truthy_id :: "nat option \<Rightarrow> bool" where
  "truthy_id x = (case x of None \<Rightarrow> False | Some n \<Rightarrow> n \<noteq> 0)"

definition get_name_record :: "font \<Rightarrow> nat \<Rightarrow> nat option \<Rightarrow> error + string" where
  "get_name_record ttFont n fallbackID =
     (let record = getName (names ttFont) n 3 1 0x409;
          record = (case fallbackID of
                      Some fb \<Rightarrow> if record = None \<and> truthy_id fallbackID
                                 then getName (names ttFont) fb 3 1 0x409 else record
                    | None \<Rightarrow> record)
      in case record of
           None \<Rightarrow> Inl (Cannot_find_record n)
         | Some r \<Rightarrow> Inr (string r))"

definition font_stylename :: "font \<Rightarrow> error + string" where
  "font_stylename ttFont = get_name_record ttFont 17 (Some 2)"

definition font_familyname :: "font \<Rightarrow> error + string" where
  "font_familyname ttFont = get_name_record ttFont 16 (Some 1)"

section \<open>The weight vocabulary\<close>

text \<open>
  \<^verbatim>\<open>_KNOWN_WEIGHTS\<close> comes from a module that is not among the sources, so it is a
  parameter \<open>kw\<close>: a dictionary from names to weight classes, in insertion order.
  \<^verbatim>\<open>WEIGHT_NAMES\<close> is that table without the empty name and with two more names.
\<close>

definition WEIGHT_NAMES :: "(string \<times> int) list \<Rightarrow> (string \<times> int) list" where
  "WEIGHT_NAMES kw =
     AList.update ''ExtraBlack'' 1000 (AList.update ''Hairline'' 1 (AList.delete '''' kw))"

text \<open>
  Modelled from the spec: the content of \<^verbatim>\<open>_KNOWN_WEIGHTS\<close> is missing; the spec names
  a fixed vocabulary of weight names with classes from 1 to 1000, among them Thin,
  Regular (400), SemiBold, Bold (700) and Black. This table is used for concrete inputs only.
\<close>

definition known_weights :: "(string \<times> int) list" where
  "known_weights =
     [('''', 400), (''Thin'', 100), (''ExtraLight'', 200), (''Light'', 300),
      (''Regular'', 400), (''Medium'', 500), (''SemiBold'', 600), (''Bold'', 700),
      (''ExtraBold'', 800), (''Black'', 900)]"

section \<open>Per-font fixes\<close>

text \<open>
  \<^verbatim>\<open>sorted(WEIGHT_NAMES, key=lambda k: len(k), reverse=True)\<close> is a stable sort, longest
  names first; the class is carried along with its name.
\<close>

definition weight_names_longest_first :: "(string \<times> int) list \<Rightarrow> (string \<times> int) list" where
  "weight_names_longest_first kw = sort_key (\<lambda>(k, v). - int (length k)) (WEIGHT_NAMES kw)"

definition fix_weight_class :: "(string \<times> int) list \<Rightarrow> font \<Rightarrow> error + font" where
  "fix_weight_class kw ttFont =
     (case font_stylename ttFont of
        Inl e \<Rightarrow> Inl e
      | Inr stylename \<Rightarrow>
          (let tokens = split stylename in
           case find (\<lambda>(style, w). style \<in> set tokens) (weight_names_longest_first kw) of
             Some (style, w) \<Rightarrow> Inr (ttFont\<lparr>usWeightClass := w\<rparr>)
           | None \<Rightarrow>
               if ''Italic'' \<in> set tokens
               then Inr (ttFont\<lparr>usWeightClass := 400\<rparr>)
               else Inl (Cannot_determine_usWeightClass stylename)))"

section \<open>Vertical metrics of a family\<close>

text \<open>
  A family is a list of distinct font objects that the fixes change in place: the
  model passes the list along and writes a changed font back at its index.
\<close>

definition typo_metrics_enabled :: "font \<Rightarrow> bool" where
  "typo_metrics_enabled ttFont = (fsSelection ttFont AND push_bit 7 1 \<noteq> 0)"

definition copy_vertical_metrics :: "font \<Rightarrow> font \<Rightarrow> font" where
  "copy_vertical_metrics src_font dst_font =
     dst_font\<lparr>usWinAscent := usWinAscent src_font,
              usWinDescent := usWinDescent src_font,
              sTypoAscender := sTypoAscender src_font,
              sTypoDescender := sTypoDescender src_font,
              sTypoLineGap := sTypoLineGap src_font,
              ascent := ascent src_font,
              descent := descent src_font,
              lineGap := lineGap src_font\<rparr>"

definition family_bounding_box :: "font list \<Rightarrow> error + int \<times> int" where
  "family_bounding_box ttFonts =
     (case ttFonts of
        [] \<Rightarrow> Inl Empty_sequence
      | f # fs \<Rightarrow> Inr (fold min (map yMin fs) (yMin f), fold max (map yMax fs) (yMax f)))"

text \<open>
  \<^verbatim>\<open>next((f for f in ttFonts if font_stylename(f) == "Regular"), ...)\<close>: the index of the
  first font whose style name is Regular; a font met on the way without a style name
  raises.
\<close>

fun find_regular :: "font list \<Rightarrow> nat \<Rightarrow> error + nat option" where
  "find_regular [] i = Inr None"
| "find_regular (f # fs) i =
     (case font_stylename f of
        Inl e \<Rightarrow> Inl e
      | Inr s \<Rightarrow> if s = ''Regular'' then Inr (Some i) else find_regular fs (Suc i))"

text \<open>
  The last loop of \<^verbatim>\<open>fix_vertical_metrics\<close>, over the indices \<open>js\<close>; the source font
  is read at its index \<open>i\<close> in every round, as the loop reads the object.
\<close>

fun copy_loop :: "nat \<Rightarrow> nat list \<Rightarrow> font list \<Rightarrow> font list" where
  "copy_loop i [] ttFonts = ttFonts"
| "copy_loop i (j # js) ttFonts =
     (let ttFonts = ttFonts[j := (ttFonts ! j)\<lparr>fsSelection := fsSelection (ttFonts ! j) OR push_bit 7 1\<rparr>];
          ttFonts = ttFonts[j := copy_vertical_metrics (ttFonts ! i) (ttFonts ! j)]
      in copy_loop i js ttFonts)"

definition fix_vertical_metrics :: "font list \<Rightarrow> error + font list" where
  "fix_vertical_metrics ttFonts =
     (if ttFonts = [] then Inl IndexError
      else case find_regular ttFonts 0 of
        Inl e \<Rightarrow> Inl e
      | Inr r \<Rightarrow>
          (let i = (case r of Some i \<Rightarrow> i | None \<Rightarrow> 0);
               src_font = ttFonts ! i;
               src_font =
                 (if \<not> typo_metrics_enabled src_font
                  then src_font\<lparr>fsSelection := fsSelection src_font OR push_bit 7 1,
                                sTypoAscender := usWinAscent src_font,
                                sTypoDescender := - usWinDescent src_font,
                                sTypoLineGap := 0\<rparr>
                  else src_font);
               src_font = src_font\<lparr>ascent := sTypoAscender src_font,
                                   descent := sTypoDescender src_font,
                                   lineGap := sTypoLineGap src_font\<rparr>;
               ttFonts = ttFonts[i := src_font]
           in case family_bounding_box ttFonts of
                Inl e \<Rightarrow> Inl e
              | Inr (win_desc, win_asc) \<Rightarrow>
                  (let src_font = src_font\<lparr>usWinAscent := win_asc, usWinDescent := \<bar>win_desc\<bar>\<rparr>;
                       ttFonts = ttFonts[i := src_font]
                   in Inr (copy_loop i [0..<length ttFonts] ttFonts))))"

text \<open>The eight vertical-metrics fields of a font.\<close>

definition vertical_metrics :: "font \<Rightarrow> int \<times> int \<times> int \<times> int \<times> int \<times> int \<times> int \<times> int" where
  "vertical_metrics f =
     (usWinAscent f, usWinDescent f, sTypoAscender f, sTypoDescender f, sTypoLineGap f,
      ascent f, descent f, lineGap f)"

section \<open>The axis registry\<close>

text \<open>
  An entry of the Google Fonts axis registry: the display name of the axis, its
  default value and its fallbacks, each a name with a value. The registry itself is a
  dictionary from axis tags to entries, read in its own order; it comes from a module
  that is not among the sources, so it is a parameter.
\<close>

record axis_entry =
  display_name :: string
  default_value :: rat
  fallback :: "(string \<times> rat) list"

type_synonym registry = "(string \<times> axis_entry) list"

section \<open>Style names to axes\<close>

text \<open>
  The inner loop of \<^verbatim>\<open>stylename_to_axes\<close>: one token against every axis of the
  registry. The state is the list \<^verbatim>\<open>axes\<close> and the set \<^verbatim>\<open>seen\<close>.
\<close>

fun scan_registry :: "string \<Rightarrow> registry \<Rightarrow> string list \<times> string set \<Rightarrow> string list \<times> string set" where
  "scan_registry token [] (axes, seen) = (axes, seen)"
| "scan_registry token ((axis_tag, axis_object) # rest) (axes, seen) =
     (if token \<in> set (map fst (fallback axis_object))
      then scan_registry token rest (axes @ [axis_tag], insert token seen)
      else scan_registry token rest (axes, seen))"

fun scan_tokens :: "string list \<Rightarrow> registry \<Rightarrow> string list \<times> string set \<Rightarrow> string list \<times> string set" where
  "scan_tokens [] axisreg st = st"
| "scan_tokens (token # rest) axisreg st = scan_tokens rest axisreg (scan_registry token axisreg st)"

text \<open>
  The result is the list of axis tags together with the set \<^verbatim>\<open>unparsed_tokens\<close>: the
  warning is logged exactly when that set is not empty.
\<close>

definition stylename_to_axes :: "string \<Rightarrow> registry \<Rightarrow> string list \<times> string set" where
  "stylename_to_axes font_style axisreg =
     (let style_tokens = split font_style;
          (axes, seen) = scan_tokens style_tokens axisreg ([], {});
          unparsed_tokens = set style_tokens - seen
      in (axes, unparsed_tokens))"

section \<open>STAT tables\<close>

definition ELIDABLE_AXIS_VALUE_NAME :: int where
  "ELIDABLE_AXIS_VALUE_NAME = 2"

definition LINKED_VALUES :: "(string \<times> rat \<times> rat) list" where
  "LINKED_VALUES = [(''wght'', (400, 700)), (''ital'', (0, 1))]"

text \<open>A STAT table in the making: a dictionary from axis tags to axis records.\<close>

type_synonym stat_tbl = "(string \<times> axis_record) list"

text \<open>\<^verbatim>\<open>_add_axis_value\<close>; a linked value that is \<^verbatim>\<open>None\<close> or 0 is left out.\<close>

definition add_axis_value :: "string option \<Rightarrow> rat option \<Rightarrow> int \<Rightarrow> rat option \<Rightarrow> axis_value" where
  "add_axis_value style_name v flags linked_value =
     \<lparr>av_value = v, av_name = style_name, av_flags = flags,
      linkedValue = (case linked_value of
                       None \<Rightarrow> None
                     | Some l \<Rightarrow> if l \<noteq> 0 then Some l else None)\<rparr>"

text \<open>\<^verbatim>\<open>_default_axis_value\<close>\<close>

definition default_axis_value :: "string \<Rightarrow> registry \<Rightarrow> error + axis_value" where
  "default_axis_value axis axisreg =
     (case map_of axisreg axis of
        None \<Rightarrow> Inl (KeyError axis)
      | Some axis_record \<Rightarrow>
          (let default_value = default_value axis_record;
               default_name = map_option fst (find (\<lambda>(n, v). v = default_value) (fallback axis_record))
           in Inr (add_axis_value default_name (Some default_value) ELIDABLE_AXIS_VALUE_NAME None)))"

text \<open>
  The values \<^verbatim>\<open>_gen_stat_using_fvar\<close> gives one axis of the fvar table: the fallbacks
  within the range of the axis, in the registry's order.
\<close>

definition fvar_axis_values :: "(string \<rightharpoonup> rat) \<Rightarrow> axis_entry \<Rightarrow> fvar_axis \<Rightarrow> axis_value list" where
  "fvar_axis_values axis_defaults entry axis =
     map (\<lambda>(n, v).
            let axis_value = add_axis_value (Some n) (Some v) 0 None
            in if axisTag axis = ''opsz'' \<and> axis_defaults (axisTag axis) = Some v
               then axis_value\<lparr>av_flags := av_flags axis_value OR ELIDABLE_AXIS_VALUE_NAME\<rparr>
               else if v = default_value entry
               then axis_value\<lparr>av_flags := av_flags axis_value OR ELIDABLE_AXIS_VALUE_NAME\<rparr>
               else axis_value)
         (filter (\<lambda>(n, v). v \<ge> minValue axis \<and> v \<le> maxValue axis) (fallback entry))"

text \<open>
  The loop over the fvar axes. An axis that is not in the registry is skipped (with a
  warning that the model does not keep); assigning to a tag that is already there
  replaces its record at the same place.
\<close>

fun gen_stat_loop :: "registry \<Rightarrow> (string \<rightharpoonup> rat) \<Rightarrow> fvar_axis list \<Rightarrow> stat_tbl \<Rightarrow> stat_tbl" where
  "gen_stat_loop axis_reg axis_defaults [] results = results"
| "gen_stat_loop axis_reg axis_defaults (axis # rest) results =
     (case map_of axis_reg (axisTag axis) of
        None \<Rightarrow> gen_stat_loop axis_reg axis_defaults rest results
      | Some entry \<Rightarrow>
          gen_stat_loop axis_reg axis_defaults rest
            (AList.update (axisTag axis)
               \<lparr>ax_tag = axisTag axis, ax_name = display_name entry,
                ax_values = fvar_axis_values axis_defaults entry axis\<rparr> results))"

definition gen_stat_using_fvar :: "registry \<Rightarrow> font \<Rightarrow> error + stat_tbl" where
  "gen_stat_using_fvar axis_reg font =
     (case fvar font of
        None \<Rightarrow> Inl (KeyError ''fvar'')
      | Some fv \<Rightarrow>
          (let axis_defaults = map_of (rev (map (\<lambda>a. (axisTag a, defaultValue a)) (fvar_axes fv)))
           in Inr (gen_stat_loop axis_reg axis_defaults (fvar_axes fv) [])))"

text \<open>
  The first loop of \<^verbatim>\<open>gen_stat_tables\<close>. A Python set is kept as a list without
  repetitions; the order in which a set is read is not fixed in Python, and only the
  key of a KeyError raised on the way can depend on it.
\<close>

fun family_axes_loop :: "registry \<Rightarrow> font list \<Rightarrow> string list \<Rightarrow> error + string list" where
  "family_axes_loop axis_registry [] family_axes = Inr family_axes"
| "family_axes_loop axis_registry (font # fonts) family_axes =
     (case font_stylename font of
        Inl e \<Rightarrow> Inl e
      | Inr font_style \<Rightarrow>
          family_axes_loop axis_registry fonts
            (remdups (family_axes @ fst (stylename_to_axes font_style axis_registry))))"

text \<open>
  The record for an axis of the family that the font's own table lacks.
  \<open>font_style_tokens\<close> is the dictionary made from
  \<^verbatim>\<open>zip(font_style_axes, font_style.split())\<close>.
\<close>

definition missing_axis_record :: "registry \<Rightarrow> (string \<rightharpoonup> string) \<Rightarrow> string \<Rightarrow> error + axis_record" where
  "missing_axis_record axis_reg font_style_tokens axis =
     (case map_of axis_reg axis of
        None \<Rightarrow> Inl (KeyError axis)
      | Some entry \<Rightarrow>
          (case font_style_tokens axis of
             None \<Rightarrow>
               (case default_axis_value axis axis_reg of
                  Inl e \<Rightarrow> Inl e
                | Inr v \<Rightarrow> Inr \<lparr>ax_tag = axis, ax_name = display_name entry, ax_values = [v]\<rparr>)
           | Some style_name \<Rightarrow>
               (let v = map_option snd (find (\<lambda>(n, v). n = style_name) (fallback entry));
                    axis_value = add_axis_value (Some style_name) v 0 None
                in Inr \<lparr>ax_tag = axis, ax_name = display_name entry, ax_values = [axis_value]\<rparr>)))"

fun add_missing_axes :: "registry \<Rightarrow> (string \<rightharpoonup> string) \<Rightarrow> string list \<Rightarrow> stat_tbl \<Rightarrow> error + stat_tbl" where
  "add_missing_axes axis_reg font_style_tokens [] stat_tbl = Inr stat_tbl"
| "add_missing_axes axis_reg font_style_tokens (axis # rest) stat_tbl =
     (case missing_axis_record axis_reg font_style_tokens axis of
        Inl e \<Rightarrow> Inl e
      | Inr axis_record \<Rightarrow>
          add_missing_axes axis_reg font_style_tokens rest (AList.update axis axis_record stat_tbl))"

text \<open>
  The body of the second loop, for one font. \<^verbatim>\<open>stylename_to_axes\<close> is called without
  a registry there, so it reads the module's registry \<open>axis_registry\<close>, whatever
  \<open>axis_reg\<close> the caller passed.
\<close>

definition font_stat_tbl :: "registry \<Rightarrow> registry \<Rightarrow> string list \<Rightarrow> font \<Rightarrow> error + stat_tbl" where
  "font_stat_tbl axis_registry axis_reg family_axes font =
     (case gen_stat_using_fvar axis_reg font of
        Inl e \<Rightarrow> Inl e
      | Inr stat_tbl \<Rightarrow>
          (case font_stylename font of
             Inl e \<Rightarrow> Inl e
           | Inr font_style \<Rightarrow>
               (let font_style_axes = fst (stylename_to_axes font_style axis_registry);
                    font_style_tokens = map_of (rev (zip font_style_axes (split font_style)));
                    axes_missing = filter (\<lambda>a. a \<notin> set (map fst stat_tbl)) family_axes
                in add_missing_axes axis_reg font_style_tokens axes_missing stat_tbl)))"

fun build_stat_tbls :: "registry \<Rightarrow> registry \<Rightarrow> string list \<Rightarrow> font list \<Rightarrow> error + stat_tbl list" where
  "build_stat_tbls axis_registry axis_reg family_axes [] = Inr []"
| "build_stat_tbls axis_registry axis_reg family_axes (font # fonts) =
     (case font_stat_tbl axis_registry axis_reg family_axes font of
        Inl e \<Rightarrow> Inl e
      | Inr stat_tbl \<Rightarrow>
          (case build_stat_tbls axis_registry axis_reg family_axes fonts of
             Inl e \<Rightarrow> Inl e
           | Inr stat_tbls \<Rightarrow> Inr (stat_tbl # stat_tbls)))"

text \<open>\<^verbatim>\<open>seen_axis_values[axis]\<close>: the values of the axis in all the tables.\<close>

definition seen_axis_values :: "stat_tbl list \<Rightarrow> string \<Rightarrow> rat option set" where
  "seen_axis_values stat_tbls axis =
     set (concat (map (\<lambda>stat_tbl. case map_of stat_tbl axis of
                                    None \<Rightarrow> []
                                  | Some r \<Rightarrow> map av_value (ax_values r)) stat_tbls))"

text \<open>
  The body of the linking loop for one axis of one table: every value equal to the
  start of the linked pair gets the end as its linked value, when the end was seen.
\<close>

definition link_axis :: "stat_tbl list \<Rightarrow> string \<Rightarrow> axis_record \<Rightarrow> axis_record" where
  "link_axis stat_tbls axis_tag axis_obj =
     (case map_of LINKED_VALUES axis_tag of
        None \<Rightarrow> axis_obj
      | Some (start, end) \<Rightarrow>
          axis_obj\<lparr>ax_values :=
            map (\<lambda>axis_value.
                   if av_value axis_value = Some start \<and> Some end \<in> seen_axis_values stat_tbls axis_tag
                   then axis_value\<lparr>linkedValue := Some end\<rparr>
                   else axis_value)
                (ax_values axis_obj)\<rparr>)"

definition add_linked_values :: "stat_tbl list \<Rightarrow> stat_tbl list" where
  "add_linked_values stat_tbls =
     map (map (\<lambda>(axis_tag, axis_obj). (axis_tag, link_axis stat_tbls axis_tag axis_obj))) stat_tbls"

text \<open>\<^verbatim>\<open>_update_elided_axis_values\<close>: its inner loop body, its outer loop body, and the loop.\<close>

definition elide_value :: "rat list \<Rightarrow> axis_value \<Rightarrow> axis_value" where
  "elide_value listed val =
     (if (case av_value val of None \<Rightarrow> False | Some x \<Rightarrow> x \<in> set listed)
      then val\<lparr>av_flags := av_flags val OR ELIDABLE_AXIS_VALUE_NAME\<rparr>
      else val\<lparr>av_flags := av_flags val AND NOT ELIDABLE_AXIS_VALUE_NAME\<rparr>)"

definition elide_axis :: "(string \<times> rat list) list \<Rightarrow> axis_record \<Rightarrow> axis_record" where
  "elide_axis elided_values axis =
     (case map_of elided_values (ax_tag axis) of
        None \<Rightarrow> axis
      | Some listed \<Rightarrow> axis\<lparr>ax_values := map (elide_value listed) (ax_values axis)\<rparr>)"

definition update_elided_axis_values :: "axis_record list \<Rightarrow> (string \<times> rat list) list \<Rightarrow> axis_record list" where
  "update_elided_axis_values stat elided_values = map (elide_axis elided_values) stat"

text \<open>
  \<^verbatim>\<open>if elided_axis_values: _update_elided_axis_values(axes, elided_axis_values)\<close>: the
  override is skipped when it is \<^verbatim>\<open>None\<close> or an empty dictionary.
\<close>

definition override_elided :: "(string \<times> rat list) list option \<Rightarrow> axis_record list \<Rightarrow> axis_record list" where
  "override_elided elided_axis_values axes =
     (case elided_axis_values of
        None \<Rightarrow> axes
      | Some ev \<Rightarrow> if ev \<noteq> [] then update_elided_axis_values axes ev else axes)"

text \<open>\<^verbatim>\<open>[stat_tbl[a] for a in axis_order]\<close>\<close>

fun lookup_axes :: "stat_tbl \<Rightarrow> string list \<Rightarrow> error + axis_record list" where
  "lookup_axes stat_tbl [] = Inr []"
| "lookup_axes stat_tbl (a # as) =
     (case map_of stat_tbl a of
        None \<Rightarrow> Inl (KeyError a)
      | Some r \<Rightarrow>
          (case lookup_axes stat_tbl as of
             Inl e \<Rightarrow> Inl e
           | Inr rs \<Rightarrow> Inr (r # rs)))"

text \<open>
  The last loop: the axis list of each font goes to \<^verbatim>\<open>buildStatTable\<close>, which is
  fontTools' and is taken to store the list in the font. The result is the family as
  the loop leaves it, with the exception that stopped it, if any.
\<close>

fun write_stat_tables ::
  "string list \<Rightarrow> (string \<times> rat list) list option \<Rightarrow> (stat_tbl \<times> font) list \<Rightarrow> font list \<times> error option" where
  "write_stat_tables axis_order elided_axis_values [] = ([], None)"
| "write_stat_tables axis_order elided_axis_values ((stat_tbl, font) # rest) =
     (case lookup_axes stat_tbl axis_order of
        Inl e \<Rightarrow> (font # map snd rest, Some e)
      | Inr axes \<Rightarrow>
          (let axes = override_elided elided_axis_values axes;
               (fonts, err) = write_stat_tables axis_order elided_axis_values rest
           in (font\<lparr>STAT := Some axes\<rparr> # fonts, err)))"

definition gen_stat_tables ::
  "registry \<Rightarrow> font list \<Rightarrow> string list \<Rightarrow> (string \<times> rat list) list option \<Rightarrow> registry
     \<Rightarrow> font list \<times> error option" where
  "gen_stat_tables axis_registry fonts axis_order elided_axis_values axis_reg =
     (case family_axes_loop axis_registry fonts [] of
        Inl e \<Rightarrow> (fonts, Some e)
      | Inr family_axes \<Rightarrow>
          (case build_stat_tbls axis_registry axis_reg family_axes fonts of
             Inl e \<Rightarrow> (fonts, Some e)
           | Inr stat_tbls \<Rightarrow>
               (let stat_tbls = add_linked_values stat_tbls;
                    seen_axes = remdups (concat (map (map fst) stat_tbls));
                    axes_not_ordered = filter (\<lambda>a. a \<notin> set axis_order) seen_axes
                in if axes_not_ordered \<noteq> []
                   then (fonts, Some (Axis_order_missing (set axes_not_ordered)))
                   else (let axis_order = filter (\<lambda>a. a \<in> set seen_axes) axis_order
                         in write_stat_tables axis_order elided_axis_values (zip stat_tbls fonts)))))"

section \<open>The name table of a static font\<close>

subsection \<open>More of Python's strings\<close>

text \<open>\<^verbatim>\<open>old in s\<close>: \<open>old\<close> is a substring of \<open>s\<close>; the empty string is in every string.\<close>

fun str_contains :: "string \<Rightarrow> string \<Rightarrow> bool" where
  "str_contains [] old = (old = [])"
| "str_contains (c # cs) old = (take (length old) (c # cs) = old \<or> str_contains cs old)"

text \<open>
  \<^verbatim>\<open>s.replace(old, new)\<close>: the occurrences of \<open>old\<close> are taken from the left and do not
  overlap; \<open>k\<close> counts the characters of an occurrence that remain to be skipped. An
  empty \<open>old\<close> matches before every character and at the end.
\<close>

fun replace_skip :: "string \<Rightarrow> string \<Rightarrow> nat \<Rightarrow> string \<Rightarrow> string" where
  "replace_skip old new k [] = []"
| "replace_skip old new (Suc k) (c # cs) = replace_skip old new k cs"
| "replace_skip old new 0 (c # cs) =
     (if take (length old) (c # cs) = old
      then new @ replace_skip old new (length old - 1) cs
      else c # replace_skip old new 0 cs)"

definition str_replace :: "string \<Rightarrow> string \<Rightarrow> string \<Rightarrow> string" where
  "str_replace s old new =
     (if old = [] then new @ concat (map (\<lambda>c. c # new) s) else replace_skip old new 0 s)"

text \<open>\<^verbatim>\<open>s.lstrip(chars)\<close> removes the leading characters that are among \<open>chars\<close>.\<close>

definition lstrip_chars :: "string \<Rightarrow> string \<Rightarrow> string" where
  "lstrip_chars s chars = dropWhile (\<lambda>c. c \<in> set chars) s"

text \<open>\<^verbatim>\<open>s.split(sep)[0]\<close> for a separator of one character: the text before the first one.\<close>

definition split_first :: "string \<Rightarrow> char \<Rightarrow> string" where
  "split_first s sep = takeWhile (\<lambda>c. c \<noteq> sep) s"

subsection \<open>Writing to the name table\<close>

text \<open>
  fontTools' \<^verbatim>\<open>name.setName(string, nameID, platformID, platEncID, langID)\<close> changes the
  text of the first record with these four numbers, and appends a new record when
  there is none.
\<close>

fun setName :: "name_record list \<Rightarrow> string \<Rightarrow> nat \<Rightarrow> nat \<Rightarrow> nat \<Rightarrow> nat \<Rightarrow> name_record list" where
  "setName [] s n p e l =
     [\<lparr>nameID = n, platformID = p, platEncID = e, langID = l, string = s\<rparr>]"
| "setName (r # recs) s n p e l =
     (if nameID r = n \<and> platformID r = p \<and> platEncID r = e \<and> langID r = l
      then r\<lparr>string := s\<rparr> # recs
      else r # setName recs s n p e l)"

text \<open>
  fontTools' \<^verbatim>\<open>name.removeNames\<close> drops the records that agree with every argument
  given: here either the nameID, or the three numbers of a platform.
\<close>

definition removeNames_nameID :: "name_record list \<Rightarrow> nat \<Rightarrow> name_record list" where
  "removeNames_nameID recs n = filter (\<lambda>r. nameID r \<noteq> n) recs"

definition removeNames_platform :: "name_record list \<Rightarrow> nat \<times> nat \<times> nat \<Rightarrow> name_record list" where
  "removeNames_platform recs p = filter (\<lambda>r. (platformID r, platEncID r, langID r) \<noteq> p) recs"

text \<open>
  fontTools' \<^verbatim>\<open>name.addName(string)\<close> takes the first nameID above 255 that is above
  every nameID of the table, appends a record for the platforms (1, 0, 0) and
  (3, 1, 0x409), and returns the nameID.
\<close>

definition addName :: "name_record list \<Rightarrow> string \<Rightarrow> name_record list \<times> nat" where
  "addName recs s =
     (let n = 1 + Max (set (map nameID recs @ [255]))
      in (recs @ [\<lparr>nameID = n, platformID = 1, platEncID = 0, langID = 0, string = s\<rparr>,
                  \<lparr>nameID = n, platformID = 3, platEncID = 1, langID = 0x409, string = s\<rparr>], n))"

subsection \<open>\<^verbatim>\<open>update_nametable\<close>\<close>

text \<open>
  The records of every platform but Windows US English are removed. The platforms to
  remove are a set, and removals for different platforms commute, so they are one
  filter.
\<close>

definition platforms_to_remove :: "name_record list \<Rightarrow> (nat \<times> nat \<times> nat) set" where
  "platforms_to_remove recs =
     (let platforms = set (map (\<lambda>rec. (platformID rec, platEncID rec, langID rec)) recs)
      in (platforms - {(3, 1, 0x409)}) \<union> ({(3, 1, 0x409)} - platforms))"

definition remove_platforms :: "name_record list \<Rightarrow> name_record list" where
  "remove_platforms recs =
     filter (\<lambda>r. (platformID r, platEncID r, langID r) \<notin> platforms_to_remove recs) recs"

text \<open>The nameIDs of the records with a line feed or a carriage return, then their removal.\<close>

definition contains_linebreaks :: "name_record list \<Rightarrow> nat list" where
  "contains_linebreaks recs =
     concat (map (\<lambda>r. concat (map (\<lambda>char. if char \<in> set (string r) then [nameID r] else [])
                                  [CHR 0x0A, CHR 0x0D])) recs)"

definition remove_linebreaks :: "name_record list \<Rightarrow> name_record list" where
  "remove_linebreaks recs = fold (\<lambda>n recs. removeNames_nameID recs n) (contains_linebreaks recs) recs"

definition prune_names :: "font \<Rightarrow> font" where
  "prune_names ttFont = ttFont\<lparr>names := remove_linebreaks (remove_platforms (names ttFont))\<rparr>"

text \<open>An argument that is \<^verbatim>\<open>None\<close> or empty is replaced by what the font says.\<close>

definition arg_or :: "string option \<Rightarrow> error + string \<Rightarrow> error + string" where
  "arg_or arg from_font =
     (case arg of None \<Rightarrow> from_font | Some s \<Rightarrow> if s = [] then from_font else Inr s)"

text \<open>The dictionary \<^verbatim>\<open>nameids\<close> after the branch on the style, in insertion order.\<close>

definition nameids_of :: "(string \<times> int) list \<Rightarrow> string \<Rightarrow> string \<Rightarrow> (nat \<times> string) list" where
  "nameids_of kw family_name style_name =
     (if style_name \<in> set [''Regular'', ''Bold'', ''Italic'', ''Bold Italic'']
      then [(1, family_name), (2, style_name)]
      else
        (let tokens = split style_name;
             family_name_suffix = join '' '' (filter (\<lambda>t. t \<notin> set [''Italic'']) tokens);
             typo_family_suffix =
               join '' '' (filter (\<lambda>t. t \<notin> set (map fst (WEIGHT_NAMES kw) @ [''Italic''])) tokens);
             typo_style =
               join '' '' (filter (\<lambda>t. t \<in> set (map fst (WEIGHT_NAMES kw) @ [''Italic''])) tokens)
         in [(1, strip (family_name @ '' '' @ family_name_suffix)),
             (2, if ''Italic'' \<notin> set tokens then ''Regular'' else ''Italic''),
             (16, strip (family_name @ '' '' @ typo_family_suffix)),
             (17, typo_style)]))"

text \<open>\<^verbatim>\<open>nameids.get(a) or nameids.get(b)\<close>\<close>

definition get_or :: "(nat \<times> string) list \<Rightarrow> nat \<Rightarrow> nat \<Rightarrow> string option" where
  "get_or nameids a b =
     (case map_of nameids a of
        None \<Rightarrow> map_of nameids b
      | Some s \<Rightarrow> if s = [] then map_of nameids b else Some s)"

definition font_version :: "font \<Rightarrow> string" where
  "font_version font =
     (case getName (names font) 5 3 1 0x409 of
        None \<Rightarrow> fontRevision_3f font
      | Some nameRecord \<Rightarrow>
          strip (lstrip_chars (split_first (string nameRecord) CHR '';'') ''Version ''))"

definition unique_name :: "font \<Rightarrow> (nat \<times> string) list \<Rightarrow> error + string" where
  "unique_name ttFont nameids =
     (case map_of nameids 6 of
        None \<Rightarrow> Inl (KeyError_int 6)
      | Some ps_name \<Rightarrow>
          Inr (font_version ttFont @ '';'' @ strip (achVendID ttFont) @ '';'' @ ps_name))"

text \<open>
  The pass that replaces the old family name. The loop visits the records by
  position; \<^verbatim>\<open>setName\<close> writes to the first record with the numbers of the one visited,
  so no record is added and the positions stay valid.
\<close>

fun replace_family_name :: "string \<Rightarrow> string \<Rightarrow> nat list \<Rightarrow> name_record list \<Rightarrow> name_record list" where
  "replace_family_name current_family_name family_name [] recs = recs"
| "replace_family_name current_family_name family_name (i # is) recs =
     (let record = recs ! i
      in replace_family_name current_family_name family_name is
           (if str_contains (string record) current_family_name
            then setName recs (str_replace (string record) current_family_name family_name)
                   (nameID record) (platformID record) (platEncID record) (langID record)
            else recs))"

definition set_nameids :: "(nat \<times> string) list \<Rightarrow> name_record list \<Rightarrow> name_record list" where
  "set_nameids nameids recs = fold (\<lambda>(n, s) recs. setName recs s n 3 1 0x409) nameids recs"

definition update_nametable ::
    "(string \<times> int) list \<Rightarrow> font \<Rightarrow> string option \<Rightarrow> string option \<Rightarrow> error + font" where
  "update_nametable kw ttFont family_name style_name =
     (if fvar ttFont \<noteq> None then Inl Cannot_update_variable_font
      else
        let ttFont = prune_names ttFont in
        case arg_or family_name (font_familyname ttFont) of
          Inl e \<Rightarrow> Inl e
        | Inr family_name \<Rightarrow>
        case arg_or style_name (font_stylename ttFont) of
          Inl e \<Rightarrow> Inl e
        | Inr style_name \<Rightarrow>
        let nameids = nameids_of kw family_name style_name in
        case (get_or nameids 16 1, get_or nameids 17 2) of
          (Some family_name, Some style_name) \<Rightarrow>
            (let nameids = AList.update 4 (family_name @ '' '' @ style_name) nameids;
                 nameids = AList.update 6 (str_replace family_name '' '' '''' @ ''-''
                                            @ str_replace style_name '' '' '''') nameids
             in case unique_name ttFont nameids of
                  Inl e \<Rightarrow> Inl e
                | Inr unique \<Rightarrow>
                    (let nameids = AList.update 3 unique nameids
                     in case font_familyname ttFont of
                          Inl e \<Rightarrow> Inl e
                        | Inr current_family_name \<Rightarrow>
                            Inr (ttFont\<lparr>names :=
                              set_nameids nameids
                                (removeNames_nameID
                                   (removeNames_nameID
                                      (replace_family_name current_family_name family_name
                                         [0..<length (names ttFont)] (names ttFont))
                                      16)
                                   17)\<rparr>)))
        | _ \<Rightarrow> Inl AttributeError)"

definition fix_nametable :: "(string \<times> int) list \<Rightarrow> font \<Rightarrow> error + font" where
  "fix_nametable kw ttFont =
     (if fvar ttFont \<noteq> None then Inr ttFont
      else case font_familyname ttFont of
             Inl e \<Rightarrow> Inl e
           | Inr family_name \<Rightarrow>
               (case font_stylename ttFont of
                  Inl e \<Rightarrow> Inl e
                | Inr style_name \<Rightarrow> update_nametable kw ttFont (Some family_name) (Some style_name)))"

section \<open>The fixes of one font\<close>

definition UNWANTED_TABLES :: "string set" where
  "UNWANTED_TABLES =
     {''FFTM'', ''TTFA'', ''TSI0'', ''TSI1'', ''TSI2'', ''TSI3'', ''TSI5'', ''prop'', ''MVAR''}"

text \<open>The tags of the tables of a font: \<^verbatim>\<open>ttFont.keys()\<close>.\<close>

definition font_keys :: "font \<Rightarrow> string set" where
  "font_keys ttFont =
     {''name'', ''OS/2'', ''head'', ''hhea'', ''post''}
     \<union> (if fvar ttFont \<noteq> None then {''fvar''} else {})
     \<union> (if DSIG ttFont \<noteq> None then {''DSIG''} else {})
     \<union> (if gasp ttFont \<noteq> None then {''gasp''} else {})
     \<union> (if prep ttFont \<noteq> None then {''prep''} else {})
     \<union> (if STAT ttFont \<noteq> None then {''STAT''} else {})
     \<union> set (other_tables ttFont)"

text \<open>
  Only unwanted tables are deleted, and none of them is a table with a field of its
  own in the model; the two warnings are not modelled.
\<close>

definition remove_tables :: "font \<Rightarrow> string list option \<Rightarrow> font" where
  "remove_tables ttFont tables =
     (let tables_to_remove =
            (case tables of
               None \<Rightarrow> UNWANTED_TABLES
             | Some ts \<Rightarrow> if ts = [] then UNWANTED_TABLES else set ts);
          font_tables = font_keys ttFont;
          tables_to_remove = UNWANTED_TABLES \<inter> font_tables \<inter> tables_to_remove
      in ttFont\<lparr>other_tables := filter (\<lambda>tbl. tbl \<notin> tables_to_remove) (other_tables ttFont)\<rparr>)"

definition add_dummy_dsig :: "font \<Rightarrow> font" where
  "add_dummy_dsig ttFont = ttFont\<lparr>DSIG := Some (1, 0, 0)\<rparr>"

definition fix_unhinted_font :: "font \<Rightarrow> font" where
  "fix_unhinted_font ttFont =
     ttFont\<lparr>gasp := Some [(0xFFFF, 15)],
             prep := Some [''PUSHW[]'', ''511'', ''SCANCTRL[]'', ''PUSHB[]'', ''4'', ''SCANTYPE[]'']\<rparr>"

definition fix_hinted_font :: "font \<Rightarrow> font" where
  "fix_hinted_font ttFont = ttFont\<lparr>head_flags := head_flags ttFont OR push_bit 3 1\<rparr>"

definition fix_fs_type :: "font \<Rightarrow> font" where
  "fix_fs_type ttFont = ttFont\<lparr>fsType := 0\<rparr>"

definition fix_fs_selection :: "font \<Rightarrow> error + font" where
  "fix_fs_selection ttFont =
     (case font_stylename ttFont of
        Inl e \<Rightarrow> Inl e
      | Inr stylename \<Rightarrow>
          (let tokens = set (split stylename);
               fs_selection = fsSelection ttFont AND push_bit 7 1;
               fs_selection = (if ''Italic'' \<in> tokens then fs_selection OR push_bit 0 1 else fs_selection);
               fs_selection = (if ''Bold'' \<in> tokens then fs_selection OR push_bit 5 1 else fs_selection);
               fs_selection = (if tokens \<inter> {''Bold'', ''Italic''} = {}
                               then fs_selection OR push_bit 6 1 else fs_selection)
           in Inr (ttFont\<lparr>fsSelection := fs_selection\<rparr>)))"

definition fix_mac_style :: "font \<Rightarrow> error + font" where
  "fix_mac_style ttFont =
     (case font_stylename ttFont of
        Inl e \<Rightarrow> Inl e
      | Inr stylename \<Rightarrow>
          (let tokens = set (split stylename);
               mac_style = 0;
               mac_style = (if ''Italic'' \<in> tokens then mac_style OR push_bit 1 1 else mac_style);
               mac_style = (if ''Bold'' \<in> tokens then mac_style OR push_bit 0 1 else mac_style)
           in Inr (ttFont\<lparr>macStyle := mac_style\<rparr>)))"

definition fix_italic_angle :: "font \<Rightarrow> error + font" where
  "fix_italic_angle ttFont =
     (case font_stylename ttFont of
        Inl e \<Rightarrow> Inl e
      | Inr style_name \<Rightarrow>
          if \<not> str_contains style_name ''Italic'' \<and> italicAngle ttFont \<noteq> 0
          then Inr (ttFont\<lparr>italicAngle := 0\<rparr>)
          else Inr ttFont)"

subsection \<open>The instances of a variable font\<close>

text \<open>\<^verbatim>\<open>WEIGHT_VALUES = {v: k for k, v in WEIGHT_NAMES.items()}\<close>\<close>

definition WEIGHT_VALUES :: "(string \<times> int) list \<Rightarrow> (int \<times> string) list" where
  "WEIGHT_VALUES kw = fold (\<lambda>(k, v) d. AList.update v k d) (WEIGHT_NAMES kw) []"

text \<open>\<^verbatim>\<open>int(x)\<close> of a number rounds towards zero.\<close>

definition int_of :: "rat \<Rightarrow> int" where
  "int_of x = (if 0 \<le> x then \<lfloor>x\<rfloor> else \<lceil>x\<rceil>)"

text \<open>\<^verbatim>\<open>range(start, stop, step)\<close> for a positive step.\<close>

definition range_step :: "int \<Rightarrow> int \<Rightarrow> int \<Rightarrow> int list" where
  "range_step start stop step =
     map (\<lambda>k. start + step * int k) [0..<nat ((stop - start + step - 1) div step)]"

text \<open>
  \<^verbatim>\<open>gen_instances\<close>: one name is added to the name table for every weight, and its
  nameID is kept for the instance. A weight without a name raises KeyError.
\<close>

fun gen_instances ::
    "(string \<times> int) list \<Rightarrow> bool \<Rightarrow> int list \<Rightarrow> name_record list \<Rightarrow> error + name_record list \<times> nat list" where
  "gen_instances kw is_italic [] nametable = Inr (nametable, [])"
| "gen_instances kw is_italic (wght_val # rest) nametable =
     (case map_of (WEIGHT_VALUES kw) wght_val of
        None \<Rightarrow> Inl (KeyError_int wght_val)
      | Some weight_name \<Rightarrow>
          (let name = (if \<not> is_italic then weight_name else strip (weight_name @ '' Italic''));
               name = str_replace name ''Regular Italic'' ''Italic'';
               (nametable, subfamilyNameID) = addName nametable name
           in case gen_instances kw is_italic rest nametable of
                Inl e \<Rightarrow> Inl e
              | Inr (nametable, ids) \<Rightarrow> Inr (nametable, subfamilyNameID # ids)))"

text \<open>
  Every instance is given the one dictionary \<^verbatim>\<open>default_axis_vals\<close> as its coordinates,
  and every round writes its weight into it: at the end all instances hold the
  defaults with the last weight.
\<close>

definition fix_fvar_instances :: "(string \<times> int) list \<Rightarrow> font \<Rightarrow> error + font" where
  "fix_fvar_instances kw ttFont =
     (case fvar ttFont of
        None \<Rightarrow> Inl Not_a_variable_font
      | Some fvar_tbl \<Rightarrow>
          (let default_axis_vals =
                 fold (\<lambda>a d. AList.update (axisTag a) (defaultValue a) d) (fvar_axes fvar_tbl) []
           in case font_stylename ttFont of
                Inl e \<Rightarrow> Inl e
              | Inr stylename \<Rightarrow>
                  (let is_italic = str_contains stylename ''Italic'';
                       is_roman_and_italic =
                         (\<exists>a\<in>set [''slnt'', ''ital'']. a \<in> fst ` set default_axis_vals)
                   in case find (\<lambda>a. axisTag a = ''wght'') (fvar_axes fvar_tbl) of
                        None \<Rightarrow> Inl AttributeError
                      | Some wght_axis' \<Rightarrow>
                          (let wght_min = int_of (minValue wght_axis');
                               wght_max = int_of (maxValue wght_axis');
                               weights = range_step wght_min (wght_max + 100) 100;
                               generated =
                                 (if is_roman_and_italic
                                  then (case gen_instances kw False weights (names ttFont) of
                                          Inl e \<Rightarrow> Inl e
                                        | Inr (nametable, ids) \<Rightarrow>
                                            (case gen_instances kw True weights nametable of
                                               Inl e \<Rightarrow> Inl e
                                             | Inr (nametable, ids') \<Rightarrow> Inr (nametable, ids @ ids')))
                                  else gen_instances kw is_italic weights (names ttFont))
                           in case generated of
                                Inl e \<Rightarrow> Inl e
                              | Inr (nametable, ids) \<Rightarrow>
                                  (let coordinates =
                                         (if weights = [] then default_axis_vals
                                          else AList.update ''wght'' (of_int (last weights)) default_axis_vals)
                                   in Inr (ttFont\<lparr>names := nametable,
                                         fvar := Some (fvar_tbl\<lparr>fvar_instances :=
                                           map (\<lambda>n. \<lparr>subfamilyNameID = n, coordinates = coordinates\<rparr>) ids\<rparr>)\<rparr>))))))"

subsection \<open>\<^verbatim>\<open>fix_font\<close>\<close>

text \<open>The fixes that are made only when the source fixes are asked for, in their order.\<close>

definition source_fixes :: "(string \<times> int) list \<Rightarrow> font \<Rightarrow> error + font" where
  "source_fixes kw font =
     (case fix_nametable kw (remove_tables font None) of
        Inl e \<Rightarrow> Inl e
      | Inr font \<Rightarrow>
     (case fix_fs_selection (fix_fs_type font) of
        Inl e \<Rightarrow> Inl e
      | Inr font \<Rightarrow>
     (case fix_mac_style font of
        Inl e \<Rightarrow> Inl e
      | Inr font \<Rightarrow>
     (case fix_weight_class kw font of
        Inl e \<Rightarrow> Inl e
      | Inr font \<Rightarrow>
     (case fix_italic_angle font of
        Inl e \<Rightarrow> Inl e
      | Inr font \<Rightarrow>
          if fvar font \<noteq> None then fix_fvar_instances kw font else Inr font)))))"

definition fix_font :: "(string \<times> int) list \<Rightarrow> font \<Rightarrow> bool \<Rightarrow> error + font" where
  "fix_font kw font include_source_fixes =
     (let font = font\<lparr>os2_version := 4\<rparr>;
          font = (if DSIG font = None then add_dummy_dsig font else font);
          font = (if ''fpgm'' \<in> font_keys font then fix_hinted_font font else fix_unhinted_font font);
          font = (if fvar font \<noteq> None then remove_tables font (Some [''MVAR'']) else font)
      in if include_source_fixes then source_fixes kw font else Inr font)"

section \<open>The fixes of a family\<close>

definition family_is_vf :: "font list \<Rightarrow> error + bool" where
  "family_is_vf ttFonts =
     (let has_fvar = map (\<lambda>ttFont. fvar ttFont \<noteq> None) ttFonts
      in if (\<exists>b\<in>set has_fvar. b)
         then (if (\<forall>b\<in>set has_fvar. b) then Inr True else Inl Static_and_variable)
         else Inr False)"

text \<open>The results of a function on the fonts of a list in turn, up to the first exception.\<close>

fun for_each :: "('a \<Rightarrow> error + 'b) \<Rightarrow> 'a list \<Rightarrow> error + 'b list" where
  "for_each g [] = Inr []"
| "for_each g (x # xs) =
     (case g x of
        Inl e \<Rightarrow> Inl e
      | Inr y \<Rightarrow> (case for_each g xs of Inl e \<Rightarrow> Inl e | Inr ys \<Rightarrow> Inr (y # ys)))"

definition validate_family :: "font list \<Rightarrow> error + bool" where
  "validate_family ttFonts =
     (case family_is_vf ttFonts of
        Inl e \<Rightarrow> Inl e
      | Inr _ \<Rightarrow>
          (case for_each font_familyname ttFonts of
             Inl e \<Rightarrow> Inl e
           | Inr family_names \<Rightarrow>
               if card (set family_names) \<noteq> 1 then Inl (Multiple_families (set family_names))
               else Inr True))"

text \<open>
  \<^verbatim>\<open>download_family_from_Google_Fonts\<close> and \<^verbatim>\<open>Google_Fonts_has_family\<close> come from a
  module that is not among the sources and ask a server: they are the parameters
  \<open>download\<close>, which gives the fonts that \<^verbatim>\<open>TTFont\<close> opens, and \<open>has_family\<close>. Both can
  raise.

  The fonts of both families are put in dictionaries by style name, so that of the
  fonts with one style name the last one stands for all; \<open>fonts\<close> keeps the index of
  the font in the family.
\<close>

definition by_style :: "(string \<times> 'a) list \<Rightarrow> (string \<times> 'a) list" where
  "by_style items = fold (\<lambda>(style, x) d. AList.update style x d) items []"

text \<open>The loop of \<^verbatim>\<open>inherit_vertical_metrics\<close> over the dictionary \<open>fonts\<close>.\<close>

definition inherit_loop ::
    "(string \<times> font) list \<Rightarrow> font \<Rightarrow> (string \<times> nat) list \<Rightarrow> font list \<Rightarrow> font list" where
  "inherit_loop gf_fonts gf_fallback fonts ttFonts =
     fold (\<lambda>(style, i) ttFonts.
            (let src_font = (case map_of gf_fonts style of Some f \<Rightarrow> f | None \<Rightarrow> gf_fallback);
                 font = copy_vertical_metrics src_font (ttFonts ! i);
                 font = (if typo_metrics_enabled src_font
                         then font\<lparr>fsSelection := fsSelection font OR push_bit 7 1\<rparr>
                         else font)
             in ttFonts[i := font]))
          fonts ttFonts"

definition inherit_vertical_metrics ::
    "(string \<Rightarrow> error + font list) \<Rightarrow> font list \<Rightarrow> string option \<Rightarrow> error + font list" where
  "inherit_vertical_metrics download ttFonts family_name =
     (case arg_or family_name (case ttFonts of [] \<Rightarrow> Inl IndexError | f # _ \<Rightarrow> font_familyname f) of
        Inl e \<Rightarrow> Inl e
      | Inr family_name \<Rightarrow>
     (case download family_name of
        Inl e \<Rightarrow> Inl e
      | Inr gf_fonts \<Rightarrow>
     (case for_each font_stylename gf_fonts of
        Inl e \<Rightarrow> Inl e
      | Inr gf_styles \<Rightarrow>
     (let gf_fonts = by_style (zip gf_styles gf_fonts)
      in case gf_fonts of
           [] \<Rightarrow> Inl IndexError
         | (_, gf_fallback) # _ \<Rightarrow>
             (case for_each font_stylename ttFonts of
                Inl e \<Rightarrow> Inl e
              | Inr styles \<Rightarrow>
                  Inr (inherit_loop gf_fonts gf_fallback
                         (by_style (zip styles [0..<length ttFonts])) ttFonts))))))"

text \<open>
  \<^verbatim>\<open>fix_family\<close>. Of the exceptions of the two calls inside \<^verbatim>\<open>try\<close> only
  FileNotFoundError is caught; \<^verbatim>\<open>inherit_vertical_metrics\<close> raises before it changes a
  font, so the fonts are then as they were. The warnings are not modelled.
\<close>

definition fix_family ::
    "(string \<times> int) list \<Rightarrow> (string \<Rightarrow> error + bool) \<Rightarrow> (string \<Rightarrow> error + font list)
       \<Rightarrow> font list \<Rightarrow> bool \<Rightarrow> error + font list" where
  "fix_family kw has_family download fonts include_source_fixes =
     (case validate_family fonts of
        Inl e \<Rightarrow> Inl e
      | Inr _ \<Rightarrow>
     (case (case fonts of [] \<Rightarrow> Inl IndexError | f # _ \<Rightarrow> font_familyname f) of
        Inl e \<Rightarrow> Inl e
      | Inr family_name \<Rightarrow>
     (case for_each (\<lambda>font. fix_font kw font include_source_fixes) fonts of
        Inl e \<Rightarrow> Inl e
      | Inr fonts \<Rightarrow>
          if include_source_fixes
          then (case (case has_family family_name of
                        Inl e \<Rightarrow> Inl e
                      | Inr on_gf \<Rightarrow>
                          if on_gf then inherit_vertical_metrics download fonts None else Inr fonts) of
                  Inl e \<Rightarrow> if e = FileNotFoundError then fix_vertical_metrics fonts else Inl e
                | Inr fonts \<Rightarrow> fix_vertical_metrics fonts)
          else Inr fonts)))"

section \<open>Notions used in the statements\<close>

text \<open>
  The axes whose fallback names contain a token, in the registry's order: what the
  tokenizer is specified to look for.
\<close>

definition matching_axes :: "registry \<Rightarrow> string \<Rightarrow> string list" where
  "matching_axes axisreg token =
     map fst (filter (\<lambda>(axis_tag, axis_object). token \<in> fst ` set (fallback axis_object)) axisreg)"

text \<open>An axis value is elidable when the flag bit \<^verbatim>\<open>ELIDABLE_AXIS_VALUE_NAME\<close> is set.\<close>

definition elidable :: "axis_value \<Rightarrow> bool" where
  "elidable v = (av_flags v AND ELIDABLE_AXIS_VALUE_NAME \<noteq> 0)"

text \<open>Some font of the family has, in its STAT table, the value \<open>x\<close> on the axis \<open>tag\<close>.\<close>

definition family_has_axis_value :: "font list \<Rightarrow> string \<Rightarrow> rat \<Rightarrow> bool" where
  "family_has_axis_value fonts tag x =
     (\<exists>f\<in>set fonts. case STAT f of
        None \<Rightarrow> False
      | Some axes \<Rightarrow> \<exists>r\<in>set axes. ax_tag r = tag \<and> (\<exists>v\<in>set (ax_values r). av_value v = Some x))"

text \<open>
  A table is sound when every record sits under its own tag and none of its values
  has a linked value.
\<close>

definition sound_tbl :: "stat_tbl \<Rightarrow> bool" where
  "sound_tbl tbl =
     (\<forall>a r. map_of tbl a = Some r \<longrightarrow> ax_tag r = a \<and> (\<forall>v\<in>set (ax_values r). linkedValue v = None))"

text \<open>The text of the Windows US English record of a font with a given nameID, if any.\<close>

definition name_string :: "font \<Rightarrow> nat \<Rightarrow> string option" where
  "name_string f n = map_option string (getName (names f) n 3 1 0x409)"

text \<open>The names of the weight vocabulary.\<close>

definition weight_vocabulary :: "(string \<times> int) list \<Rightarrow> string set" where
  "weight_vocabulary kw = fst ` set (WEIGHT_NAMES kw)"

section \<open>Concrete inputs\<close>

definition win_name :: "nat \<Rightarrow> string \<Rightarrow> name_record" where
  "win_name n s = \<lparr>nameID = n, platformID = 3, platEncID = 1, langID = 0x409, string = s\<rparr>"

definition example_font :: "name_record list \<Rightarrow> font" where
  "example_font recs =
     \<lparr>names = recs, fvar = None, os2_version = 3, fsType = 0, fsSelection = 0,
      usWeightClass = 400, achVendID = ''TEST'', usWinAscent = 1000, usWinDescent = 250,
      sTypoAscender = 800, sTypoDescender = -200, sTypoLineGap = 0, head_flags = 0,
      macStyle = 0, yMin = -250, yMax = 1000, fontRevision_3f = ''1.000'', ascent = 1000,
      descent = -250, lineGap = 0, italicAngle = 0, DSIG = None, gasp = None, prep = None,
      other_tables = [], STAT = None\<rparr>"

definition static_font :: "string \<Rightarrow> string \<Rightarrow> font" where
  "static_font family style =
     example_font [win_name 1 family, win_name 2 ''Regular'', win_name 16 family, win_name 17 style]"

definition example_family :: "font list" where
  "example_family =
     [(static_font ''Fam'' ''Bold'')\<lparr>yMin := -210, yMax := 790, usWinAscent := 900, sTypoLineGap := 50\<rparr>,
      (static_font ''Fam'' ''Regular'')\<lparr>yMin := -200, yMax := 800\<rparr>]"

text \<open>
  A small registry in the shape of the Google Fonts one; the fallback name Roman
  belongs to two axes.
\<close>

definition example_registry :: registry where
  "example_registry =
     [(''wght'', \<lparr>display_name = ''Weight'', default_value = 400,
                 fallback = [(''Thin'', 100), (''Light'', 300), (''Regular'', 400),
                             (''Bold'', 700), (''Black'', 900)]\<rparr>),
      (''wdth'', \<lparr>display_name = ''Width'', default_value = 100,
                 fallback = [(''Condensed'', 75), (''Normal'', 100), (''Expanded'', 125)]\<rparr>),
      (''ital'', \<lparr>display_name = ''Italic'', default_value = 0,
                 fallback = [(''Roman'', 0), (''Italic'', 1)]\<rparr>),
      (''CRSV'', \<lparr>display_name = ''Cursive'', default_value = 1 / 2,
                 fallback = [(''Roman'', 0), (''Auto'', 1 / 2), (''Cursive'', 1)]\<rparr>)]"

definition variable_font :: "string \<Rightarrow> string \<Rightarrow> fvar_axis list \<Rightarrow> font" where
  "variable_font family style axs =
     (example_font [win_name 1 family, win_name 2 style])\<lparr>fvar := Some \<lparr>fvar_axes = axs, fvar_instances = []\<rparr>\<rparr>"

definition wght_axis :: fvar_axis where
  "wght_axis = \<lparr>axisTag = ''wght'', minValue = 300, defaultValue = 400, maxValue = 700\<rparr>"

definition wdth_axis :: fvar_axis where
  "wdth_axis = \<lparr>axisTag = ''wdth'', minValue = 75, defaultValue = 100, maxValue = 100\<rparr>"

text \<open>Two variable fonts of one family, upright and italic, with the same weight axis.\<close>

definition family_regular_italic :: "font list" where
  "family_regular_italic =
     [variable_font ''Fam'' ''Regular'' [wght_axis], variable_font ''Fam'' ''Italic'' [wght_axis]]"

text \<open>Two variable fonts of one family, the second with a width axis that the first lacks.\<close>

definition family_mixed_axes :: "font list" where
  "family_mixed_axes =
     [variable_font ''Fam'' ''Regular'' [wght_axis],
      variable_font ''Fam'' ''Regular'' [wght_axis, wdth_axis]]"

text \<open>
  A variable font with a width axis only, whose style name starts with a token that
  is in no axis of the registry.
\<close>

definition font_display_bold :: font where
  "font_display_bold = variable_font ''Fam'' ''Display Bold'' [wdth_axis]"

section \<open>Properties\<close>

subsection \<open>Vertical metrics\<close>

lemma bit_128: "bit (128::int) n \<longleftrightarrow> n = 7"
proof -
  have "bit ((2::int) ^ 7) n \<longleftrightarrow> n = 7" by (simp only: bit_exp_iff) auto
  then show ?thesis by simp
qed

lemma typo_metrics_enabled_bit: "typo_metrics_enabled f = bit (fsSelection f) 7"
proof -
  have "(x AND 128 \<noteq> 0) = bit x 7" for x :: int
  proof
    assume "x AND 128 \<noteq> 0"
    then have "\<exists>n. bit (x AND 128) n"
      using bit_eq_iff [of "x AND 128" 0] by auto
    then show "bit x 7" by (auto simp: bit_and_iff bit_128)
  next
    assume "bit x 7"
    then have "bit (x AND 128) 7" by (simp add: bit_and_iff bit_128)
    then show "x AND 128 \<noteq> 0" by auto
  qed
  then show ?thesis by (simp add: typo_metrics_enabled_def)
qed

lemma typo_metrics_enabled_or:
  "fsSelection g = x OR push_bit 7 1 \<Longrightarrow> typo_metrics_enabled g"
  by (simp add: typo_metrics_enabled_bit bit_or_iff bit_128)

lemma family_bounding_box_nonempty:
  "ttFonts \<noteq> [] \<Longrightarrow> \<exists>win_desc win_asc. family_bounding_box ttFonts = Inr (win_desc, win_asc)"
  by (cases ttFonts) (simp_all add: family_bounding_box_def)

lemma length_copy_loop: "length (copy_loop i js fs) = length fs"
  by (induction js arbitrary: fs) (simp_all add: Let_def)

lemma vertical_metrics_copy:
  "vertical_metrics (copy_vertical_metrics s d) = vertical_metrics s"
  by (simp add: vertical_metrics_def copy_vertical_metrics_def)

lemma fsSelection_copy: "fsSelection (copy_vertical_metrics s d) = fsSelection d"
  by (simp add: copy_vertical_metrics_def)

lemma vertical_metrics_flag: "vertical_metrics (f\<lparr>fsSelection := x\<rparr>) = vertical_metrics f"
  by (simp add: vertical_metrics_def)

text \<open>
  The loop invariant: a font that is still to be visited, or that already agrees with
  the source font and has the flag, agrees with the source font and has the flag at the end.
\<close>

lemma copy_loop_inv:
  assumes "i < length fs" "k < length fs"
    and "k \<in> set js \<or>
         (vertical_metrics (fs ! k) = vertical_metrics (fs ! i) \<and> typo_metrics_enabled (fs ! k))"
  shows "vertical_metrics (copy_loop i js fs ! k) = vertical_metrics (fs ! i)
       \<and> typo_metrics_enabled (copy_loop i js fs ! k)"
  using assms
proof (induction js arbitrary: fs)
  case Nil
  then show ?case by simp
next
  case (Cons j js)
  define fs1 where "fs1 = fs[j := (fs ! j)\<lparr>fsSelection := fsSelection (fs ! j) OR push_bit 7 1\<rparr>]"
  define fs2 where "fs2 = fs1[j := copy_vertical_metrics (fs1 ! i) (fs1 ! j)]"
  have step: "copy_loop i (j # js) fs = copy_loop i js fs2"
    by (simp add: fs1_def fs2_def Let_def)
  have len: "length fs2 = length fs" by (simp add: fs1_def fs2_def)
  have src1: "vertical_metrics (fs1 ! i) = vertical_metrics (fs ! i)"
    using Cons.prems(1) by (cases "i = j") (simp_all add: fs1_def vertical_metrics_flag)
  have src2: "vertical_metrics (fs2 ! i) = vertical_metrics (fs ! i)"
    using Cons.prems(1) src1 by (cases "i = j") (simp_all add: fs2_def fs1_def vertical_metrics_copy)
  have k2: "k \<in> set js \<or>
      (vertical_metrics (fs2 ! k) = vertical_metrics (fs2 ! i) \<and> typo_metrics_enabled (fs2 ! k))"
  proof (cases "k = j")
    case True
    have j1: "j < length fs1" using Cons.prems(2) True by (simp add: fs1_def)
    then have "vertical_metrics (fs2 ! k) = vertical_metrics (fs1 ! i)"
      using True by (simp add: fs2_def vertical_metrics_copy)
    moreover have "typo_metrics_enabled (fs1 ! j)"
      using Cons.prems(2) True by (intro typo_metrics_enabled_or [of _ "fsSelection (fs ! j)"]) (simp add: fs1_def)
    then have "typo_metrics_enabled (fs2 ! k)"
      using True j1 by (simp add: fs2_def typo_metrics_enabled_def fsSelection_copy)
    ultimately show ?thesis
      using src1 src2 by simp
  next
    case False
    then have "fs2 ! k = fs ! k" by (simp add: fs2_def fs1_def)
    then show ?thesis using Cons.prems(3) False src2 by auto
  qed
  have "vertical_metrics (copy_loop i js fs2 ! k) = vertical_metrics (fs2 ! i)
       \<and> typo_metrics_enabled (copy_loop i js fs2 ! k)"
    using Cons.IH [of fs2] Cons.prems(1,2) len k2 by simp
  then show ?case using step src2 by simp
qed

lemma find_regular_Some: "find_regular fs n = Inr (Some i) \<Longrightarrow> n \<le> i \<and> i < n + length fs"
  by (induction fs arbitrary: n) (fastforce split: sum.splits if_splits)+

lemma find_regular_total:
  "\<forall>f\<in>set fs. \<exists>s. font_stylename f = Inr s \<Longrightarrow> \<exists>r. find_regular fs n = Inr r"
  by (induction fs arbitrary: n) (auto split: sum.splits)

lemma fix_vertical_metrics_shape:
  assumes "ttFonts \<noteq> []" "fix_vertical_metrics ttFonts = Inr fs"
  shows "\<exists>i fs0. i < length fs0 \<and> length fs0 = length ttFonts
           \<and> fs = copy_loop i [0..<length fs0] fs0"
proof -
  obtain r where r: "find_regular ttFonts 0 = Inr r"
    using assms by (auto simp: fix_vertical_metrics_def split: sum.splits)
  define i where "i = (case r of Some i \<Rightarrow> i | None \<Rightarrow> 0)"
  have i: "i < length ttFonts"
    using find_regular_Some [of ttFonts 0] r assms(1) by (auto simp: i_def split: option.splits)
  define src0 where "src0 = (if \<not> typo_metrics_enabled (ttFonts ! i)
        then (ttFonts ! i)\<lparr>fsSelection := fsSelection (ttFonts ! i) OR push_bit 7 1,
                              sTypoAscender := usWinAscent (ttFonts ! i),
                              sTypoDescender := - usWinDescent (ttFonts ! i),
                              sTypoLineGap := 0\<rparr>
        else ttFonts ! i)"
  define src1 where "src1 = src0\<lparr>ascent := sTypoAscender src0, descent := sTypoDescender src0,
                                  lineGap := sTypoLineGap src0\<rparr>"
  obtain win_desc win_asc where bb: "family_bounding_box (ttFonts[i := src1]) = Inr (win_desc, win_asc)"
    using family_bounding_box_nonempty [of "ttFonts[i := src1]"] assms(1) by auto
  define src2 where "src2 = src1\<lparr>usWinAscent := win_asc, usWinDescent := \<bar>win_desc\<bar>\<rparr>"
  have "fix_vertical_metrics ttFonts = Inr (copy_loop i [0..<length ttFonts] (ttFonts[i := src2]))"
    using assms(1) r bb
    by (simp add: fix_vertical_metrics_def Let_def i_def [symmetric] src0_def [symmetric]
          src1_def [symmetric] src2_def [symmetric])
  then have "fs = copy_loop i [0..<length (ttFonts[i := src2])] (ttFonts[i := src2])"
    using assms(2) by simp
  then show ?thesis using i
    by (intro exI [of _ i] exI [of _ "ttFonts[i := src2]"]) simp
qed

text \<open>
  C2. For a non-empty family: when every font has a style name, the harmonization
  returns; and whenever it returns, the family has as many fonts as before, all of
  them have the same eight vertical-metrics fields, and all of them have bit 7 of
  fsSelection set.
\<close>

theorem fix_vertical_metrics_harmonizes:
  assumes "ttFonts \<noteq> []"
  shows "((\<forall>f\<in>set ttFonts. \<exists>s. font_stylename f = Inr s) \<longrightarrow>
            (\<exists>fs. fix_vertical_metrics ttFonts = Inr fs))
       \<and> (\<forall>fs. fix_vertical_metrics ttFonts = Inr fs \<longrightarrow>
            length fs = length ttFonts \<and>
            (\<forall>f\<in>set fs. \<forall>g\<in>set fs. vertical_metrics f = vertical_metrics g) \<and>
            (\<forall>f\<in>set fs. typo_metrics_enabled f \<and> bit (fsSelection f) 7))"
proof (intro conjI impI allI)
  assume "\<forall>f\<in>set ttFonts. \<exists>s. font_stylename f = Inr s"
  then obtain r where "find_regular ttFonts 0 = Inr r"
    using find_regular_total by blast
  then show "\<exists>fs. fix_vertical_metrics ttFonts = Inr fs"
    using assms
    by (auto simp: fix_vertical_metrics_def family_bounding_box_def Let_def split: list.splits)
next
  fix fs
  assume run: "fix_vertical_metrics ttFonts = Inr fs"
  then obtain i fs0 where i: "i < length fs0" and len0: "length fs0 = length ttFonts"
    and fs: "fs = copy_loop i [0..<length fs0] fs0"
    using fix_vertical_metrics_shape [OF assms] by blast
  show "length fs = length ttFonts"
    by (simp add: fs len0 length_copy_loop)
  have all: "vertical_metrics (fs ! k) = vertical_metrics (fs0 ! i) \<and> typo_metrics_enabled (fs ! k)"
    if "k < length fs0" for k
    unfolding fs using copy_loop_inv [of i fs0 k "[0..<length fs0]"] i that by simp
  have len: "length fs = length fs0" by (simp add: fs length_copy_loop)
  show "\<forall>f\<in>set fs. \<forall>g\<in>set fs. vertical_metrics f = vertical_metrics g"
    using all len by (metis in_set_conv_nth)
  show "\<forall>f\<in>set fs. typo_metrics_enabled f \<and> bit (fsSelection f) 7"
    using all len by (metis in_set_conv_nth typo_metrics_enabled_bit)
qed

lemmas example_font_defs =
  example_family_def static_font_def example_font_def win_name_def
  font_stylename_def font_familyname_def get_name_record_def getName_def truthy_id_def

theorem fix_vertical_metrics_harmonizes_witness:
  "example_family \<noteq> [] \<and> map font_stylename example_family = [Inr ''Bold'', Inr ''Regular''] \<and>
   (\<exists>fs. fix_vertical_metrics example_family = Inr fs \<and> length fs = 2 \<and>
      (\<forall>f\<in>set fs. \<forall>g\<in>set fs. vertical_metrics f = vertical_metrics g) \<and>
      (\<forall>f\<in>set fs. bit (fsSelection f) 7))"
proof -
  have ne: "example_family \<noteq> []"
    by (simp add: example_family_def)
  have named: "\<forall>f\<in>set example_family. \<exists>s. font_stylename f = Inr s"
    by (simp add: example_font_defs)
  have len: "length example_family = 2"
    by (simp add: example_family_def)
  have styles: "map font_stylename example_family = [Inr ''Bold'', Inr ''Regular'']"
    by (simp add: example_font_defs)
  from fix_vertical_metrics_harmonizes [OF ne] named len styles show ?thesis
    by (metis ne)
qed

subsection \<open>Weight class\<close>

lemma set_weight_names_longest_first:
  "set (weight_names_longest_first kw) = set (WEIGHT_NAMES kw)"
  by (simp add: weight_names_longest_first_def)

text \<open>
  C10, as the code has it. A font whose style name has no token of the weight
  vocabulary gets weight class 400 when the token Italic is there, with no
  diagnostic; otherwise the fix raises a ValueError.
\<close>

theorem fix_weight_class_no_weight_token:
  assumes "font_stylename ttFont = Inr stylename"
      and "set (split stylename) \<inter> fst ` set (WEIGHT_NAMES kw) = {}"
  shows "fix_weight_class kw ttFont =
     (if ''Italic'' \<in> set (split stylename) then Inr (ttFont\<lparr>usWeightClass := 400\<rparr>)
      else Inl (Cannot_determine_usWeightClass stylename))"
proof -
  have "find (\<lambda>(style, w). style \<in> set (split stylename)) (weight_names_longest_first kw) = None"
    using assms(2) by (force simp: find_None_iff set_weight_names_longest_first)
  then show ?thesis
    using assms(1) by (simp add: fix_weight_class_def)
qed

theorem fix_weight_class_no_weight_token_witness:
  "font_stylename (static_font ''Fam'' ''Condensed Italic'') = Inr ''Condensed Italic''
   \<and> set (split ''Condensed Italic'') \<inter> fst ` set (WEIGHT_NAMES known_weights) = {}
   \<and> fix_weight_class known_weights (static_font ''Fam'' ''Condensed Italic'')
       = Inr ((static_font ''Fam'' ''Condensed Italic'')\<lparr>usWeightClass := 400\<rparr>)"
proof -
  have n: "font_stylename (static_font ''Fam'' ''Condensed Italic'') = Inr ''Condensed Italic''"
    by (simp add: example_font_defs)
  have t: "set (split ''Condensed Italic'') \<inter> fst ` set (WEIGHT_NAMES known_weights) = {}"
    by (simp add: split_def is_space_def WEIGHT_NAMES_def known_weights_def)
  have i: "''Italic'' \<in> set (split ''Condensed Italic'')"
    by (simp add: split_def is_space_def)
  show ?thesis
    using fix_weight_class_no_weight_token [OF n t] n t i by simp
qed

text \<open>
  The style name Condensed has no weight token and no Italic: the fix does not
  recover, it raises.
\<close>

theorem fix_weight_class_raises:
  "font_stylename (static_font ''Fam'' ''Condensed'') = Inr ''Condensed''
   \<and> set (split ''Condensed'') \<inter> fst ` set (WEIGHT_NAMES known_weights) = {}
   \<and> fix_weight_class known_weights (static_font ''Fam'' ''Condensed'')
       = Inl (Cannot_determine_usWeightClass ''Condensed'')"
  by (simp add: fix_weight_class_def example_font_defs split_def is_space_def
        weight_names_longest_first_def WEIGHT_NAMES_def known_weights_def)

subsection \<open>Style names to axes\<close>

lemma scan_registry_eq:
  "scan_registry token axisreg (axes, seen) =
     (axes @ matching_axes axisreg token,
      if matching_axes axisreg token = [] then seen else insert token seen)"
proof (induction axisreg arbitrary: axes seen)
  case Nil
  then show ?case by (simp add: matching_axes_def)
next
  case (Cons p axisreg)
  obtain axis_tag axis_object where p: "p = (axis_tag, axis_object)" by (cases p)
  show ?case
    using Cons.IH by (auto simp: p matching_axes_def)
qed

lemma scan_tokens_eq:
  "scan_tokens tokens axisreg (axes, seen) =
     (axes @ concat (map (matching_axes axisreg) tokens),
      seen \<union> {t \<in> set tokens. matching_axes axisreg t \<noteq> []})"
proof (induction tokens arbitrary: axes seen)
  case Nil
  then show ?case by simp
next
  case (Cons token tokens)
  show ?case
    by (simp add: scan_registry_eq Cons.IH) blast
qed

text \<open>
  C4, as the code has it. For each token of the style name, in order, the tokenizer
  emits the tag of every axis whose fallback names contain the token, in the
  registry's order; the tokens that match no axis are the unparsed ones, about which
  the warning is logged.
\<close>

theorem stylename_to_axes_all_matches:
  "stylename_to_axes font_style axisreg =
     (concat (map (matching_axes axisreg) (split font_style)),
      {t \<in> set (split font_style). matching_axes axisreg t = []})"
  by (auto simp: stylename_to_axes_def scan_tokens_eq Let_def)

text \<open>
  The token Roman is a fallback name of two axes of the registry: the tokenizer emits
  two tags for it, not only the first.
\<close>

theorem stylename_to_axes_two_tags:
  "split ''Roman'' = [''Roman'']
   \<and> stylename_to_axes ''Roman'' example_registry = ([''ital'', ''CRSV''], {})"
  by (simp add: stylename_to_axes_def split_def is_space_def example_registry_def)

subsection \<open>STAT tables before they are linked\<close>

lemma sound_tbl_Nil: "sound_tbl []"
  by (simp add: sound_tbl_def)

lemma sound_tbl_update:
  assumes "sound_tbl tbl" "ax_tag r = a" "\<forall>v\<in>set (ax_values r). linkedValue v = None"
  shows "sound_tbl (AList.update a r tbl)"
  using assms by (auto simp: sound_tbl_def update_conv')

lemma fvar_axis_values_unlinked:
  "v \<in> set (fvar_axis_values axis_defaults entry axis) \<Longrightarrow> linkedValue v = None"
  by (auto simp: fvar_axis_values_def add_axis_value_def Let_def)

lemma gen_stat_loop_sound:
  "sound_tbl results \<Longrightarrow> sound_tbl (gen_stat_loop axis_reg axis_defaults axs results)"
proof (induction axs arbitrary: results)
  case Nil
  then show ?case by simp
next
  case (Cons axis axs)
  show ?case
  proof (cases "map_of axis_reg (axisTag axis)")
    case None
    then show ?thesis using Cons by simp
  next
    case (Some entry)
    have "sound_tbl (AList.update (axisTag axis)
            \<lparr>ax_tag = axisTag axis, ax_name = display_name entry,
             ax_values = fvar_axis_values axis_defaults entry axis\<rparr> results)"
      by (rule sound_tbl_update [OF Cons.prems]) (simp_all add: fvar_axis_values_unlinked)
    then show ?thesis
      using Some Cons.IH by simp
  qed
qed

lemma missing_axis_record_sound:
  assumes "missing_axis_record axis_reg toks axis = Inr r"
  shows "ax_tag r = axis \<and> (\<forall>v\<in>set (ax_values r). linkedValue v = None)"
  using assms
  by (auto simp: missing_axis_record_def default_axis_value_def add_axis_value_def Let_def
           split: option.splits sum.splits)

lemma add_missing_axes_sound:
  "sound_tbl tbl \<Longrightarrow> add_missing_axes axis_reg toks axs tbl = Inr tbl' \<Longrightarrow> sound_tbl tbl'"
proof (induction axs arbitrary: tbl)
  case Nil
  then show ?case by simp
next
  case (Cons axis axs)
  from Cons.prems(2) obtain rec where rec: "missing_axis_record axis_reg toks axis = Inr rec"
    and rest: "add_missing_axes axis_reg toks axs (AList.update axis rec tbl) = Inr tbl'"
    by (auto split: sum.splits)
  have "sound_tbl (AList.update axis rec tbl)"
    using missing_axis_record_sound [OF rec] by (intro sound_tbl_update [OF Cons.prems(1)]) simp_all
  then show ?case
    using Cons.IH rest by blast
qed

lemma font_stat_tbl_sound:
  assumes "font_stat_tbl axis_registry axis_reg family_axes font = Inr tbl"
  shows "sound_tbl tbl"
proof -
  from assms obtain tbl0 toks axs where
    "gen_stat_using_fvar axis_reg font = Inr tbl0"
    and add: "add_missing_axes axis_reg toks axs tbl0 = Inr tbl"
    by (auto simp: font_stat_tbl_def Let_def split: sum.splits)
  then have "sound_tbl tbl0"
    by (auto simp: gen_stat_using_fvar_def Let_def sound_tbl_Nil gen_stat_loop_sound
             split: option.splits)
  then show ?thesis
    using add by (rule add_missing_axes_sound)
qed

lemma build_stat_tbls_length:
  "build_stat_tbls axis_registry axis_reg family_axes fonts = Inr tbls \<Longrightarrow> length tbls = length fonts"
  by (induction fonts arbitrary: tbls) (auto split: sum.splits)

lemma build_stat_tbls_sound:
  "build_stat_tbls axis_registry axis_reg family_axes fonts = Inr tbls \<Longrightarrow> tbl \<in> set tbls
     \<Longrightarrow> sound_tbl tbl"
  by (induction fonts arbitrary: tbls) (auto split: sum.splits dest: font_stat_tbl_sound)

subsection \<open>STAT tables: linking, ordering and writing\<close>

lemma map_of_add_linked:
  "map_of (map (\<lambda>(axis_tag, axis_obj). (axis_tag, link_axis stat_tbls axis_tag axis_obj)) tbl) a
     = map_option (link_axis stat_tbls a) (map_of tbl a)"
  by (induction tbl) auto

lemma keys_add_linked:
  "map fst (map (\<lambda>(axis_tag, axis_obj). (axis_tag, link_axis stat_tbls axis_tag axis_obj)) tbl)
     = map fst tbl"
  by (induction tbl) auto

lemma length_add_linked_values: "length (add_linked_values tbls) = length tbls"
  by (simp add: add_linked_values_def)

lemma nth_add_linked_values:
  "i < length tbls \<Longrightarrow> map_of (add_linked_values tbls ! i) a
      = map_option (link_axis tbls a) (map_of (tbls ! i) a)"
  by (simp add: add_linked_values_def map_of_add_linked)

lemma keys_add_linked_values:
  "map (map fst) (add_linked_values tbls) = map (map fst) tbls"
  by (auto simp: add_linked_values_def)

lemma ax_tag_link_axis: "ax_tag (link_axis tbls a r) = ax_tag r"
  by (simp add: link_axis_def split: option.splits prod.splits)

lemma av_values_link_axis: "map av_value (ax_values (link_axis tbls a r)) = map av_value (ax_values r)"
  by (simp add: link_axis_def split: option.splits prod.splits)

lemma lookup_axes_Inr:
  "lookup_axes tbl ord = Inr axes \<Longrightarrow> axes = map (\<lambda>a. the (map_of tbl a)) ord \<and> set ord \<subseteq> dom (map_of tbl)"
  by (induction ord arbitrary: axes) (auto split: option.splits sum.splits)

lemma lookup_axes_total:
  "set ord \<subseteq> dom (map_of tbl) \<Longrightarrow> lookup_axes tbl ord = Inr (map (\<lambda>a. the (map_of tbl a)) ord)"
  by (induction ord) (auto split: option.splits sum.splits)

lemma lookup_axes_Inl:
  "lookup_axes tbl ord = Inl e \<Longrightarrow> \<exists>a\<in>set ord. a \<notin> dom (map_of tbl) \<and> e = KeyError a"
  by (induction ord) (auto split: option.splits sum.splits)

text \<open>What the last loop leaves when no exception stopped it.\<close>

lemma write_stat_tables_success:
  assumes "write_stat_tables ord elided ps = (fs, None)"
  shows "fs = map (\<lambda>(tbl, font). font\<lparr>STAT := Some (override_elided elided (map (\<lambda>a. the (map_of tbl a)) ord))\<rparr>) ps
       \<and> (\<forall>(tbl, font)\<in>set ps. set ord \<subseteq> dom (map_of tbl))"
  using assms
proof (induction ps arbitrary: fs)
  case Nil
  then show ?case by simp
next
  case (Cons p ps)
  obtain tbl font where p: "p = (tbl, font)" by (cases p)
  obtain fs' err where rest: "write_stat_tables ord elided ps = (fs', err)"
    by (cases "write_stat_tables ord elided ps")
  from Cons.prems obtain axes where axes: "lookup_axes tbl ord = Inr axes"
    by (auto simp: p split: sum.splits)
  with Cons.prems rest have err: "err = None"
    and fs: "fs = font\<lparr>STAT := Some (override_elided elided axes)\<rparr> # fs'"
    by (auto simp: p Let_def)
  show ?case
    using Cons.IH [of fs'] rest err fs lookup_axes_Inr [OF axes] by (simp add: p)
qed

lemma write_stat_tables_total:
  assumes "\<forall>(tbl, font)\<in>set ps. set ord \<subseteq> dom (map_of tbl)"
  shows "write_stat_tables ord elided ps =
     (map (\<lambda>(tbl, font). font\<lparr>STAT := Some (override_elided elided (map (\<lambda>a. the (map_of tbl a)) ord))\<rparr>) ps, None)"
  using assms
  by (induction ps) (auto simp: lookup_axes_total Let_def)

text \<open>The tags observed across the tables of a family.\<close>

lemma gen_stat_tables_unfold:
  assumes "family_axes_loop axis_registry fonts [] = Inr family_axes"
    and "build_stat_tbls axis_registry axis_reg family_axes fonts = Inr tbls"
  shows "gen_stat_tables axis_registry fonts axis_order elided axis_reg =
     (if \<not> (\<Union>tbl\<in>set tbls. fst ` set tbl) \<subseteq> set axis_order
      then (fonts, Some (Axis_order_missing ((\<Union>tbl\<in>set tbls. fst ` set tbl) - set axis_order)))
      else write_stat_tables (filter (\<lambda>a. a \<in> (\<Union>tbl\<in>set tbls. fst ` set tbl)) axis_order) elided
             (zip (add_linked_values tbls) fonts))"
proof -
  have seen: "set (concat (map (map fst) (add_linked_values tbls))) = (\<Union>tbl\<in>set tbls. fst ` set tbl)"
    by (simp add: keys_add_linked_values) 
  have "filter (\<lambda>a. a \<notin> set axis_order) (remdups (concat (map (map fst) (add_linked_values tbls)))) \<noteq> []
      \<longleftrightarrow> \<not> (\<Union>tbl\<in>set tbls. fst ` set tbl) \<subseteq> set axis_order"
    unfolding seen [symmetric] by (auto simp: filter_empty_conv)
  moreover have "set (filter (\<lambda>a. a \<notin> set axis_order) (remdups (concat (map (map fst) (add_linked_values tbls)))))
      = (\<Union>tbl\<in>set tbls. fst ` set tbl) - set axis_order"
    unfolding seen [symmetric] by auto
  moreover have "filter (\<lambda>a. a \<in> set (remdups (concat (map (map fst) (add_linked_values tbls))))) axis_order
     = filter (\<lambda>a. a \<in> (\<Union>tbl\<in>set tbls. fst ` set tbl)) axis_order"
    using seen by simp
  ultimately show ?thesis
    using assms by (simp add: gen_stat_tables_def Let_def)
qed

text \<open>A run of \<^verbatim>\<open>gen_stat_tables\<close> that no exception stopped.\<close>

lemma gen_stat_tables_success:
  assumes "gen_stat_tables axis_registry fonts axis_order elided axis_reg = (fonts', None)"
  obtains family_axes tbls where
    "family_axes_loop axis_registry fonts [] = Inr family_axes"
    "build_stat_tbls axis_registry axis_reg family_axes fonts = Inr tbls"
    "length tbls = length fonts"
    "(\<Union>tbl\<in>set tbls. fst ` set tbl) \<subseteq> set axis_order"
    "fonts' = map (\<lambda>(tbl, font). font\<lparr>STAT := Some (override_elided elided
                     (map (\<lambda>a. the (map_of tbl a))
                        (filter (\<lambda>a. a \<in> (\<Union>tbl\<in>set tbls. fst ` set tbl)) axis_order)))\<rparr>)
               (zip (add_linked_values tbls) fonts)"
    "\<forall>tbl\<in>set (add_linked_values tbls).
        set (filter (\<lambda>a. a \<in> (\<Union>tbl\<in>set tbls. fst ` set tbl)) axis_order) \<subseteq> dom (map_of tbl)"
proof -
  from assms obtain family_axes where fa: "family_axes_loop axis_registry fonts [] = Inr family_axes"
    by (auto simp: gen_stat_tables_def split: sum.splits)
  from assms fa obtain tbls where tb: "build_stat_tbls axis_registry axis_reg family_axes fonts = Inr tbls"
    by (auto simp: gen_stat_tables_def split: sum.splits)
  let ?seen = "(\<Union>tbl\<in>set tbls. fst ` set tbl)"
  let ?ord = "filter (\<lambda>a. a \<in> ?seen) axis_order"
  have len: "length tbls = length fonts"
    using tb by (rule build_stat_tbls_length)
  have sub: "?seen \<subseteq> set axis_order"
    using assms gen_stat_tables_unfold [OF fa tb, of axis_order elided]
    by (auto split: if_splits)
  then have w: "write_stat_tables ?ord elided (zip (add_linked_values tbls) fonts) = (fonts', None)"
    using assms gen_stat_tables_unfold [OF fa tb, of axis_order elided] by simp
  note ws = write_stat_tables_success [OF w]
  have dom: "\<forall>tbl\<in>set (add_linked_values tbls). set ?ord \<subseteq> dom (map_of tbl)"
  proof
    fix tbl assume "tbl \<in> set (add_linked_values tbls)"
    moreover have "fst ` set (zip (add_linked_values tbls) fonts) = set (add_linked_values tbls)"
      using len by (metis length_add_linked_values map_fst_zip set_map)
    ultimately obtain font where "(tbl, font) \<in> set (zip (add_linked_values tbls) fonts)"
      by (metis (no_types, opaque_lifting) fst_conv imageE surj_pair)
    with ws show "set ?ord \<subseteq> dom (map_of tbl)"
      by (metis (no_types, lifting) case_prodD)
  qed
  from ws have fonts': "fonts' = map (\<lambda>(tbl, font). font\<lparr>STAT := Some (override_elided elided
                     (map (\<lambda>a. the (map_of tbl a)) ?ord))\<rparr>)
               (zip (add_linked_values tbls) fonts)"
    by (rule conjunct1)
  show ?thesis
    by (rule that [OF fa tb len sub fonts' dom])
qed

text \<open>The font at a position of the family after a run that no exception stopped.\<close>

lemma gen_stat_tables_success_nth:
  assumes "gen_stat_tables axis_registry fonts axis_order elided axis_reg = (fonts', None)"
    and "f \<in> set fonts'"
  obtains family_axes tbls i where
    "build_stat_tbls axis_registry axis_reg family_axes fonts = Inr tbls"
    "length tbls = length fonts" "length fonts' = length fonts" "i < length fonts"
    "(\<Union>tbl\<in>set tbls. fst ` set tbl) \<subseteq> set axis_order"
    "STAT f = Some (override_elided elided
                     (map (\<lambda>a. link_axis tbls a (the (map_of (tbls ! i) a)))
                        (filter (\<lambda>a. a \<in> (\<Union>tbl\<in>set tbls. fst ` set tbl)) axis_order)))"
    "f = fonts' ! i"
    "\<And>j. j < length fonts \<Longrightarrow>
       set (filter (\<lambda>a. a \<in> (\<Union>tbl\<in>set tbls. fst ` set tbl)) axis_order) \<subseteq> dom (map_of (tbls ! j))"
    "\<And>j. j < length fonts \<Longrightarrow>
       STAT (fonts' ! j) = Some (override_elided elided
                     (map (\<lambda>a. link_axis tbls a (the (map_of (tbls ! j) a)))
                        (filter (\<lambda>a. a \<in> (\<Union>tbl\<in>set tbls. fst ` set tbl)) axis_order)))"
proof -
  from assms(1) obtain family_axes tbls where
    tb: "build_stat_tbls axis_registry axis_reg family_axes fonts = Inr tbls"
    and len: "length tbls = length fonts"
    and sub: "(\<Union>tbl\<in>set tbls. fst ` set tbl) \<subseteq> set axis_order"
    and fonts': "fonts' = map (\<lambda>(tbl, font). font\<lparr>STAT := Some (override_elided elided
                     (map (\<lambda>a. the (map_of tbl a))
                        (filter (\<lambda>a. a \<in> (\<Union>tbl\<in>set tbls. fst ` set tbl)) axis_order)))\<rparr>)
               (zip (add_linked_values tbls) fonts)"
    and dom: "\<forall>tbl\<in>set (add_linked_values tbls).
        set (filter (\<lambda>a. a \<in> (\<Union>tbl\<in>set tbls. fst ` set tbl)) axis_order) \<subseteq> dom (map_of tbl)"
    by (rule gen_stat_tables_success)
  let ?ord = "filter (\<lambda>a. a \<in> (\<Union>tbl\<in>set tbls. fst ` set tbl)) axis_order"
  have len': "length fonts' = length fonts"
    by (simp add: fonts' len length_add_linked_values)
  have domj: "set ?ord \<subseteq> dom (map_of (tbls ! j))" if j: "j < length fonts" for j
  proof
    fix a assume a: "a \<in> set ?ord"
    have "add_linked_values tbls ! j \<in> set (add_linked_values tbls)"
      using j len by (simp add: length_add_linked_values)
    then have "a \<in> dom (map_of (add_linked_values tbls ! j))"
      using dom a by blast
    then show "a \<in> dom (map_of (tbls ! j))"
      using j len by (auto simp: nth_add_linked_values)
  qed
  have statj: "STAT (fonts' ! j) = Some (override_elided elided
                     (map (\<lambda>a. link_axis tbls a (the (map_of (tbls ! j) a))) ?ord))"
    if j: "j < length fonts" for j
  proof -
    have "map (\<lambda>a. the (map_of (add_linked_values tbls ! j) a)) ?ord
        = map (\<lambda>a. link_axis tbls a (the (map_of (tbls ! j) a))) ?ord"
    proof (rule map_cong [OF refl])
      fix a assume "a \<in> set ?ord"
      then obtain r where "map_of (tbls ! j) a = Some r"
        using domj [OF j] by blast
      then show "the (map_of (add_linked_values tbls ! j) a) = link_axis tbls a (the (map_of (tbls ! j) a))"
        using j len by (simp add: nth_add_linked_values)
    qed
    moreover have "STAT (fonts' ! j) = Some (override_elided elided
                     (map (\<lambda>a. the (map_of (add_linked_values tbls ! j) a)) ?ord))"
      unfolding fonts' using j len by (simp add: length_add_linked_values)
    ultimately show ?thesis
      by (simp only:)
  qed
  from assms(2) obtain i where i: "i < length fonts" and f: "f = fonts' ! i"
    using len' by (metis in_set_conv_nth)
  have "STAT f = Some (override_elided elided
                     (map (\<lambda>a. link_axis tbls a (the (map_of (tbls ! i) a))) ?ord))"
    using statj [OF i] f by simp
  then show ?thesis
    using that [OF tb len len' i sub _ f domj statj] by blast
qed

subsection \<open>Elision overrides\<close>

lemma bit_2: "bit (2::int) n \<longleftrightarrow> n = 1"
proof -
  have "bit ((2::int) ^ 1) n \<longleftrightarrow> n = 1" by (simp only: bit_exp_iff) auto
  then show ?thesis by simp
qed

lemma elidable_bit: "elidable v = bit (av_flags v) 1"
proof -
  have "(x AND 2 \<noteq> 0) = bit x 1" for x :: int
  proof
    assume "x AND 2 \<noteq> 0"
    then have "\<exists>n. bit (x AND 2) n"
      using bit_eq_iff [of "x AND 2" 0] by auto
    then show "bit x 1" by (auto simp: bit_and_iff bit_2)
  next
    assume "bit x 1"
    then have "bit (x AND 2) 1" by (simp add: bit_and_iff bit_2)
    then show "x AND 2 \<noteq> 0" by auto
  qed
  then show ?thesis by (simp add: elidable_def ELIDABLE_AXIS_VALUE_NAME_def)
qed

lemma elidable_elide_value:
  "elidable (elide_value listed v) \<longleftrightarrow> (\<exists>x. av_value v = Some x \<and> x \<in> set listed)"
  by (auto simp: elidable_bit elide_value_def ELIDABLE_AXIS_VALUE_NAME_def
        bit_or_iff bit_and_iff bit_not_iff bit_2 split: option.splits)

lemma av_value_elide_value: "av_value (elide_value listed v) = av_value v"
  by (simp add: elide_value_def)

lemma linkedValue_elide_value: "linkedValue (elide_value listed v) = linkedValue v"
  by (simp add: elide_value_def)

lemma ax_tag_elide_axis: "ax_tag (elide_axis ev r) = ax_tag r"
  by (simp add: elide_axis_def split: option.splits)

text \<open>
  The override on its own: on every axis it lists, a value is elidable afterwards
  exactly when it is listed.
\<close>

lemma update_elided_axis_values_listed:
  assumes "map_of elided_values tag = Some listed"
    and "r \<in> set (update_elided_axis_values stat elided_values)" "ax_tag r = tag"
    and "v \<in> set (ax_values r)"
  shows "elidable v \<longleftrightarrow> (\<exists>x. av_value v = Some x \<and> x \<in> set listed)"
proof -
  from assms(2) obtain r0 where r: "r = elide_axis elided_values r0"
    by (auto simp: update_elided_axis_values_def)
  then have "ax_tag r0 = tag"
    using assms(3) by (simp add: ax_tag_elide_axis)
  with assms(1) r have "ax_values r = map (elide_value listed) (ax_values r0)"
    by (simp add: elide_axis_def)
  with assms(4) obtain v0 where "v = elide_value listed v0" by auto
  then show ?thesis
    by (simp add: elidable_elide_value av_value_elide_value)
qed

text \<open>
  C8. When synthesis runs to its end with an override that lists an axis tag, then in
  every font, on every axis with that tag, a value is elidable exactly when its
  number is among the listed ones, whatever the flags were before.
\<close>

theorem gen_stat_tables_elision_override:
  assumes "gen_stat_tables axis_registry fonts axis_order (Some elided_values) axis_reg = (fonts', None)"
    and "map_of elided_values tag = Some listed"
    and "f \<in> set fonts'"
  shows "\<exists>axes. STAT f = Some axes \<and>
           (\<forall>r\<in>set axes. ax_tag r = tag \<longrightarrow>
              (\<forall>v\<in>set (ax_values r).
                 elidable v \<longleftrightarrow> (\<exists>x. av_value v = Some x \<and> x \<in> set listed)))"
proof -
  from assms(1,3) obtain axes0 where
    stat: "STAT f = Some (override_elided (Some elided_values) axes0)"
    by (rule gen_stat_tables_success_nth)
  have ne: "elided_values \<noteq> []"
    using assms(2) by auto
  then have "override_elided (Some elided_values) axes0 = update_elided_axis_values axes0 elided_values"
    by (simp add: override_elided_def)
  then show ?thesis
    using stat update_elided_axis_values_listed [OF assms(2)] by auto
qed

subsection \<open>Linked values\<close>

lemma seen_axis_values_iff:
  "y \<in> seen_axis_values tbls a \<longleftrightarrow>
     (\<exists>tbl\<in>set tbls. \<exists>r. map_of tbl a = Some r \<and> y \<in> av_value ` set (ax_values r))"
proof -
  have "y \<in> seen_axis_values tbls a \<longleftrightarrow>
      (\<exists>tbl\<in>set tbls. y \<in> set (case map_of tbl a of None \<Rightarrow> [] | Some r \<Rightarrow> map av_value (ax_values r)))"
    by (simp add: seen_axis_values_def)
  also have "\<dots> \<longleftrightarrow> (\<exists>tbl\<in>set tbls. \<exists>r. map_of tbl a = Some r \<and> y \<in> av_value ` set (ax_values r))"
  proof (rule bex_cong [OF refl])
    fix tbl
    show "y \<in> set (case map_of tbl a of None \<Rightarrow> [] | Some r \<Rightarrow> map av_value (ax_values r))
       \<longleftrightarrow> (\<exists>r. map_of tbl a = Some r \<and> y \<in> av_value ` set (ax_values r))"
      by (cases "map_of tbl a") auto
  qed
  finally show ?thesis .
qed

lemma link_axis_value:
  assumes "v \<in> set (ax_values (link_axis tbls a r0))"
    and "\<forall>v0\<in>set (ax_values r0). linkedValue v0 = None"
  shows "av_value v \<in> av_value ` set (ax_values r0) \<and>
         linkedValue v =
           (case map_of LINKED_VALUES a of
              None \<Rightarrow> None
            | Some (start, end) \<Rightarrow>
                if av_value v = Some start \<and> Some end \<in> seen_axis_values tbls a
                then Some end else None)"
  using assms by (force simp: link_axis_def split: option.splits)

lemma av_values_link_axis_set:
  "av_value ` set (ax_values (link_axis tbls a r)) = av_value ` set (ax_values r)"
  using av_values_link_axis [of tbls a r] by (metis set_map)

lemma override_elided_map:
  "\<exists>g. (\<forall>axes. override_elided elided axes = map g axes) \<and>
       (\<forall>r. ax_tag (g r) = ax_tag r \<and>
            map (\<lambda>v. (av_value v, linkedValue v)) (ax_values (g r))
              = map (\<lambda>v. (av_value v, linkedValue v)) (ax_values r))"
proof (cases "\<exists>ev. elided = Some ev \<and> ev \<noteq> []")
  case True
  then obtain ev where ev: "elided = Some ev" "ev \<noteq> []" by blast
  have "map (\<lambda>v. (av_value v, linkedValue v)) (ax_values (elide_axis ev r))
          = map (\<lambda>v. (av_value v, linkedValue v)) (ax_values r)" for r
    by (simp add: elide_axis_def elide_value_def split: option.splits)
  then show ?thesis
    using ev by (intro exI [of _ "elide_axis ev"])
      (simp add: override_elided_def update_elided_axis_values_def ax_tag_elide_axis)
next
  case False
  then have "override_elided elided axes = map (\<lambda>r. r) axes" for axes
    by (auto simp: override_elided_def split: option.splits)
  then show ?thesis
    by (intro exI [of _ "\<lambda>r. r"]) simp
qed

text \<open>The linked value that the reconciliation gives a value with number \<open>val\<close> on axis \<open>a\<close>.\<close>

lemma linked_value_cases:
  "(case map_of LINKED_VALUES a of
      None \<Rightarrow> None
    | Some (start, end) \<Rightarrow> if val = Some start \<and> P a end then Some end else None)
   = (if a = ''wght'' \<and> val = Some 400 \<and> P ''wght'' 700 then Some 700
      else if a = ''ital'' \<and> val = Some 0 \<and> P ''ital'' 1 then Some (1::rat)
      else None)"
  by (simp add: LINKED_VALUES_def)

text \<open>
  C3. When synthesis runs to its end, a value in a font's table has the linked value
  700 exactly when it is the value 400 of the axis wght and some font of the family
  has the value 700 on wght; it has the linked value 1 exactly when it is the value 0
  of the axis ital and some font has the value 1 on ital; and it has no linked value
  otherwise.
\<close>

theorem gen_stat_tables_linked_values:
  assumes "gen_stat_tables axis_registry fonts axis_order elided axis_reg = (fonts', None)"
    and "f \<in> set fonts'"
  shows "\<exists>axes. STAT f = Some axes \<and>
     (\<forall>r\<in>set axes. \<forall>v\<in>set (ax_values r).
        linkedValue v =
          (if ax_tag r = ''wght'' \<and> av_value v = Some 400
                \<and> family_has_axis_value fonts' ''wght'' 700 then Some 700
           else if ax_tag r = ''ital'' \<and> av_value v = Some 0
                \<and> family_has_axis_value fonts' ''ital'' 1 then Some 1
           else None))"
proof (rule gen_stat_tables_success_nth [OF assms])
  fix family_axes tbls i
  assume tb: "build_stat_tbls axis_registry axis_reg family_axes fonts = Inr tbls"
    and len: "length tbls = length fonts" and len': "length fonts' = length fonts"
    and i: "i < length fonts"
    and sub: "(\<Union>tbl\<in>set tbls. fst ` set tbl) \<subseteq> set axis_order"
    and f: "f = fonts' ! i"
    and dom: "\<And>j. j < length fonts \<Longrightarrow>
       set (filter (\<lambda>a. a \<in> (\<Union>tbl\<in>set tbls. fst ` set tbl)) axis_order) \<subseteq> dom (map_of (tbls ! j))"
    and stat: "\<And>j. j < length fonts \<Longrightarrow>
       STAT (fonts' ! j) = Some (override_elided elided
                     (map (\<lambda>a. link_axis tbls a (the (map_of (tbls ! j) a)))
                        (filter (\<lambda>a. a \<in> (\<Union>tbl\<in>set tbls. fst ` set tbl)) axis_order)))"
  define ord where "ord = filter (\<lambda>a. a \<in> (\<Union>tbl\<in>set tbls. fst ` set tbl)) axis_order"
  define out where "out j = override_elided elided
      (map (\<lambda>a. link_axis tbls a (the (map_of (tbls ! j) a))) ord)" for j
  define lv where "lv a val =
      (case map_of LINKED_VALUES a of
         None \<Rightarrow> None
       | Some (start, end) \<Rightarrow>
           if val = Some start \<and> Some end \<in> seen_axis_values tbls a then Some end else None)"
    for a and val :: "rat option"
  obtain g where g: "\<And>axes. override_elided elided axes = map g axes"
    and g_tag: "\<And>r. ax_tag (g r) = ax_tag r"
    and g_core: "\<And>r. map (\<lambda>v. (av_value v, linkedValue v)) (ax_values (g r))
              = map (\<lambda>v. (av_value v, linkedValue v)) (ax_values r)"
    using override_elided_map [of elided] by blast
  have stat': "STAT (fonts' ! j) = Some (out j)" if "j < length fonts" for j
    using stat [OF that] by (simp add: out_def ord_def)
  have sound: "sound_tbl (tbls ! j)" if "j < length fonts" for j
    using build_stat_tbls_sound [OF tb] that len by simp
  \<comment> \<open>every value in a font's table comes from a value of the table built for the font\<close>
  have bwd: "ax_tag r \<in> set ord \<and> linkedValue v = lv (ax_tag r) (av_value v)
        \<and> av_value v \<in> seen_axis_values tbls (ax_tag r)"
    if j: "j < length fonts" and r: "r \<in> set (out j)" and v: "v \<in> set (ax_values r)" for j r v
  proof -
    from r obtain a where a: "a \<in> set ord"
      and r_eq: "r = g (link_axis tbls a (the (map_of (tbls ! j) a)))"
      by (auto simp: out_def g)
    from a dom [OF j] obtain r0 where r0: "map_of (tbls ! j) a = Some r0"
      by (auto simp: ord_def)
    have tag0: "ax_tag r0 = a" and unlinked: "\<forall>v0\<in>set (ax_values r0). linkedValue v0 = None"
      using sound [OF j] r0 by (auto simp: sound_tbl_def)
    have tag: "ax_tag r = a"
      by (simp add: r_eq r0 g_tag ax_tag_link_axis tag0)
    have "(av_value v, linkedValue v) \<in> (\<lambda>v. (av_value v, linkedValue v)) ` set (ax_values r)"
      using v by blast
    also have "\<dots> = (\<lambda>v. (av_value v, linkedValue v)) ` set (ax_values (link_axis tbls a r0))"
      using g_core [of "link_axis tbls a r0"] by (metis r_eq r0 option.sel set_map)
    finally obtain v1 where v1: "v1 \<in> set (ax_values (link_axis tbls a r0))"
      and same: "av_value v = av_value v1" "linkedValue v = linkedValue v1"
      by auto
    from link_axis_value [OF v1 unlinked]
    have "av_value v1 \<in> av_value ` set (ax_values r0)" and "linkedValue v1 = lv a (av_value v1)"
      by (simp_all add: lv_def)
    moreover have "tbls ! j \<in> set tbls"
      using j len by simp
    ultimately show ?thesis
      using r0 a same tag by (auto simp: seen_axis_values_iff)
  qed
  \<comment> \<open>every value of a table built for a font is in the font's table\<close>
  have fwd: "\<exists>r\<in>set (out j). ax_tag r = a \<and> y \<in> av_value ` set (ax_values r)"
    if j: "j < length fonts" and r0: "map_of (tbls ! j) a = Some r0"
      and y: "y \<in> av_value ` set (ax_values r0)" for j a r0 y
  proof -
    have "a \<in> fst ` set (tbls ! j)"
      using r0 by (metis map_of_SomeD fst_conv image_eqI)
    moreover have "tbls ! j \<in> set tbls" using j len by simp
    ultimately have a: "a \<in> set ord"
      using sub by (auto simp: ord_def)
    let ?r = "g (link_axis tbls a r0)"
    have "?r \<in> set (out j)"
      using a r0 by (auto simp: out_def g intro!: image_eqI [of _ _ a])
    moreover have "ax_tag ?r = a"
      using sound [OF j] r0 by (simp add: g_tag ax_tag_link_axis sound_tbl_def)
    moreover have "av_value ` set (ax_values ?r) = av_value ` set (ax_values r0)"
    proof -
      have "map av_value (ax_values ?r) = map av_value (ax_values (link_axis tbls a r0))"
        using g_core [of "link_axis tbls a r0"]
        by (metis (no_types, lifting) list.map_comp comp_def fst_conv map_eq_conv)
      then show ?thesis
        using av_values_link_axis_set [of tbls a r0] by (metis set_map)
    qed
    ultimately show ?thesis using y by blast
  qed
  have has: "family_has_axis_value fonts' a x \<longleftrightarrow> Some x \<in> seen_axis_values tbls a" for a x
  proof
    assume "family_has_axis_value fonts' a x"
    then obtain f' axes r v where "f' \<in> set fonts'" "STAT f' = Some axes" "r \<in> set axes"
      "ax_tag r = a" "v \<in> set (ax_values r)" "av_value v = Some x"
      by (auto simp: family_has_axis_value_def split: option.splits)
    moreover then obtain j where "j < length fonts" "f' = fonts' ! j"
      using len' by (metis in_set_conv_nth)
    ultimately show "Some x \<in> seen_axis_values tbls a"
      using bwd [of j r v] stat' [of j] by auto
  next
    assume "Some x \<in> seen_axis_values tbls a"
    then obtain tbl r0 where "tbl \<in> set tbls" "map_of tbl a = Some r0"
      "Some x \<in> av_value ` set (ax_values r0)"
      by (auto simp: seen_axis_values_iff)
    moreover then obtain j where j: "j < length fonts" "tbl = tbls ! j"
      using len by (metis in_set_conv_nth)
    ultimately obtain r where r: "r \<in> set (out j)" "ax_tag r = a"
      and "Some x \<in> av_value ` set (ax_values r)"
      using fwd [of j a r0 "Some x"] by blast
    then obtain v where v: "v \<in> set (ax_values r)" "av_value v = Some x"
      by force
    have "fonts' ! j \<in> set fonts'"
      using j len' by simp
    moreover have "\<exists>r\<in>set (out j). ax_tag r = a \<and> (\<exists>v\<in>set (ax_values r). av_value v = Some x)"
      using r v by blast
    ultimately show "family_has_axis_value fonts' a x"
      using stat' [OF j(1)] unfolding family_has_axis_value_def
      by (intro bexI [of _ "fonts' ! j"]) simp_all
  qed
  have "linkedValue v =
          (if ax_tag r = ''wght'' \<and> av_value v = Some 400
                \<and> family_has_axis_value fonts' ''wght'' 700 then Some 700
           else if ax_tag r = ''ital'' \<and> av_value v = Some 0
                \<and> family_has_axis_value fonts' ''ital'' 1 then Some 1
           else None)"
    if "r \<in> set (out i)" "v \<in> set (ax_values r)" for r v
  proof -
    have "linkedValue v = lv (ax_tag r) (av_value v)"
      using bwd [OF i that] by simp
    also have "\<dots> = (if ax_tag r = ''wght'' \<and> av_value v = Some 400
                \<and> Some 700 \<in> seen_axis_values tbls ''wght'' then Some 700
           else if ax_tag r = ''ital'' \<and> av_value v = Some 0
                \<and> Some 1 \<in> seen_axis_values tbls ''ital'' then Some 1
           else None)"
      unfolding lv_def
      using linked_value_cases [where a = "ax_tag r" and val = "av_value v"
              and P = "\<lambda>a e. Some e \<in> seen_axis_values tbls a"]
      by simp
    finally show ?thesis by (simp add: has)
  qed
  then show ?thesis
    using stat' [OF i] f by blast
qed

subsection \<open>Synthesis on concrete families\<close>

lemmas stat_defs =
  gen_stat_tables_def font_stat_tbl_def gen_stat_using_fvar_def fvar_axis_values_def
  missing_axis_record_def default_axis_value_def add_axis_value_def
  add_linked_values_def link_axis_def seen_axis_values_def LINKED_VALUES_def
  override_elided_def update_elided_axis_values_def elide_axis_def elide_value_def
  ELIDABLE_AXIS_VALUE_NAME_def
  stylename_to_axes_def split_def is_space_def
  example_registry_def variable_font_def wght_axis_def wdth_axis_def
  example_font_def win_name_def
  font_stylename_def font_familyname_def get_name_record_def getName_def truthy_id_def

lemma gen_stat_tables_regular_italic:
  "gen_stat_tables example_registry family_regular_italic [''wght'', ''ital''] None example_registry =
     ([(variable_font ''Fam'' ''Regular'' [wght_axis])\<lparr>STAT := Some
          [\<lparr>ax_tag = ''wght'', ax_name = ''Weight'', ax_values =
              [\<lparr>av_value = Some 300, av_name = Some ''Light'', av_flags = 0, linkedValue = None\<rparr>,
               \<lparr>av_value = Some 400, av_name = Some ''Regular'', av_flags = 2, linkedValue = Some 700\<rparr>,
               \<lparr>av_value = Some 700, av_name = Some ''Bold'', av_flags = 0, linkedValue = None\<rparr>]\<rparr>,
           \<lparr>ax_tag = ''ital'', ax_name = ''Italic'', ax_values =
              [\<lparr>av_value = Some 0, av_name = Some ''Roman'', av_flags = 2, linkedValue = Some 1\<rparr>]\<rparr>]\<rparr>,
       (variable_font ''Fam'' ''Italic'' [wght_axis])\<lparr>STAT := Some
          [\<lparr>ax_tag = ''wght'', ax_name = ''Weight'', ax_values =
              [\<lparr>av_value = Some 300, av_name = Some ''Light'', av_flags = 0, linkedValue = None\<rparr>,
               \<lparr>av_value = Some 400, av_name = Some ''Regular'', av_flags = 2, linkedValue = Some 700\<rparr>,
               \<lparr>av_value = Some 700, av_name = Some ''Bold'', av_flags = 0, linkedValue = None\<rparr>]\<rparr>,
           \<lparr>ax_tag = ''ital'', ax_name = ''Italic'', ax_values =
              [\<lparr>av_value = Some 1, av_name = Some ''Italic'', av_flags = 0, linkedValue = None\<rparr>]\<rparr>]\<rparr>],
      None)"
  by (simp add: family_regular_italic_def stat_defs Let_def)

theorem gen_stat_tables_linked_values_witness:
  "snd (gen_stat_tables example_registry family_regular_italic [''wght'', ''ital''] None example_registry) = None
   \<and> (\<exists>f fonts' axes.
        gen_stat_tables example_registry family_regular_italic [''wght'', ''ital''] None example_registry
          = (fonts', None)
        \<and> f \<in> set fonts' \<and> STAT f = Some axes
        \<and> family_has_axis_value fonts' ''wght'' 700
        \<and> map (\<lambda>r. (ax_tag r, map (\<lambda>v. (av_value v, linkedValue v)) (ax_values r))) axes
            = [(''wght'', [(Some 300, None), (Some 400, Some 700), (Some 700, None)]),
               (''ital'', [(Some 0, Some 1)])])"
proof -
  let ?run = "gen_stat_tables example_registry family_regular_italic [''wght'', ''ital''] None example_registry"
  have run: "?run = (fst ?run, None)"
    by (simp add: gen_stat_tables_regular_italic)
  have mem: "hd (fst ?run) \<in> set (fst ?run)"
    by (simp add: gen_stat_tables_regular_italic)
  have has: "family_has_axis_value (fst ?run) ''wght'' 700"
    by (simp add: gen_stat_tables_regular_italic family_has_axis_value_def)
  from gen_stat_tables_linked_values [OF run mem] obtain axes where
    "STAT (hd (fst ?run)) = Some axes" by blast
  then have "STAT (hd (fst ?run)) = Some axes
     \<and> map (\<lambda>r. (ax_tag r, map (\<lambda>v. (av_value v, linkedValue v)) (ax_values r))) axes
            = [(''wght'', [(Some 300, None), (Some 400, Some 700), (Some 700, None)]),
               (''ital'', [(Some 0, Some 1)])]"
    by (auto simp: gen_stat_tables_regular_italic)
  moreover have "snd ?run = None"
    by (simp add: gen_stat_tables_regular_italic)
  ultimately show ?thesis
    using run mem has by (intro conjI exI [of _ "hd (fst ?run)"] exI [of _ "fst ?run"] exI [of _ axes]) simp_all
qed

theorem gen_stat_tables_elision_override_witness:
  "map_of [(''wght'', [700::rat])] ''wght'' = Some [700]
   \<and> (\<exists>f fonts' axes.
        gen_stat_tables example_registry family_regular_italic [''wght'', ''ital'']
            (Some [(''wght'', [700])]) example_registry
          = (fonts', None)
        \<and> f \<in> set fonts' \<and> STAT f = Some axes
        \<and> map (\<lambda>r. (ax_tag r, map (\<lambda>v. (av_value v, elidable v)) (ax_values r))) axes
            = [(''wght'', [(Some 300, False), (Some 400, False), (Some 700, True)]),
               (''ital'', [(Some 0, True)])])"
proof -
  let ?run = "gen_stat_tables example_registry family_regular_italic [''wght'', ''ital'']
            (Some [(''wght'', [700])]) example_registry"
  have ev: "map_of [(''wght'', [700::rat])] ''wght'' = Some [700]"
    by simp
  have s: "snd ?run = None"
    by (simp add: family_regular_italic_def stat_defs Let_def)
  then have run: "?run = (fst ?run, None)"
    by (metis prod.collapse)
  have mem: "hd (fst ?run) \<in> set (fst ?run)"
    by (simp add: family_regular_italic_def stat_defs Let_def)
  from gen_stat_tables_elision_override [OF run ev mem] obtain axes where
    "STAT (hd (fst ?run)) = Some axes" by blast
  then have "STAT (hd (fst ?run)) = Some axes
     \<and> map (\<lambda>r. (ax_tag r, map (\<lambda>v. (av_value v, elidable v)) (ax_values r))) axes
            = [(''wght'', [(Some 300, False), (Some 400, False), (Some 700, True)]),
               (''ital'', [(Some 0, True)])]"
    by (auto simp: family_regular_italic_def stat_defs Let_def elidable_def)
  then show ?thesis
    using run mem ev by (intro conjI exI [of _ "hd (fst ?run)"] exI [of _ "fst ?run"] exI [of _ axes]) simp_all
qed

text \<open>
  C1, the failing input. Every tag observed in the family (wght, wdth) is in the axis
  order, so no error about the order is due; yet the first font has no entry for
  wdth, the lookup raises KeyError, and no font gets a table.
\<close>

theorem gen_stat_tables_mixed_axes_key_error:
  "(case build_stat_tbls example_registry example_registry [''wght''] family_mixed_axes of
      Inl e \<Rightarrow> False
    | Inr stat_tbls \<Rightarrow> map (map fst) stat_tbls = [[''wght''], [''wght'', ''wdth'']])
   \<and> gen_stat_tables example_registry family_mixed_axes [''wght'', ''wdth''] None example_registry
       = (family_mixed_axes, Some (KeyError ''wdth''))"
  by (simp add: family_mixed_axes_def stat_defs Let_def)

text \<open>
  C7, the failing input. The style name Display Bold has the token Bold for the axis
  wght, whose fallback value is 700; the font has no wght axis of its own. The value
  synthesized for wght is named Display and has no number: the dictionary of style
  tokens pairs the axes found with the first tokens of the style name, and Display,
  which is in no axis, comes first.
\<close>

theorem gen_stat_tables_display_bold:
  "stylename_to_axes ''Display Bold'' example_registry = ([''wght''], {''Display''})
   \<and> gen_stat_tables example_registry [font_display_bold] [''wght'', ''wdth''] None example_registry
       = ([font_display_bold\<lparr>STAT := Some
            [\<lparr>ax_tag = ''wght'', ax_name = ''Weight'', ax_values =
                [\<lparr>av_value = None, av_name = Some ''Display'', av_flags = 0, linkedValue = None\<rparr>]\<rparr>,
             \<lparr>ax_tag = ''wdth'', ax_name = ''Width'', ax_values =
                [\<lparr>av_value = Some 75, av_name = Some ''Condensed'', av_flags = 0, linkedValue = None\<rparr>,
                 \<lparr>av_value = Some 100, av_name = Some ''Normal'', av_flags = 2, linkedValue = None\<rparr>]\<rparr>]\<rparr>],
          None)"
  by (auto simp: font_display_bold_def stat_defs Let_def)

subsection \<open>The name table\<close>

lemma getName_setName:
  "map_option string (getName (setName recs s n p e l) n' p' e' l') =
     (if n' = n \<and> p' = p \<and> e' = e \<and> l' = l then Some s
      else map_option string (getName recs n' p' e' l'))"
  by (induction recs) (auto simp: getName_def)

lemma getName_set_nameids:
  "map_option string (getName (set_nameids nameids recs) k 3 1 0x409) =
     (case map_of (rev nameids) k of
        Some s \<Rightarrow> Some s
      | None \<Rightarrow> map_option string (getName recs k 3 1 0x409))"
proof (induction nameids arbitrary: recs)
  case Nil
  then show ?case by (simp add: set_nameids_def)
next
  case (Cons a nameids)
  obtain n s where a: "a = (n, s)" by (cases a)
  have "set_nameids (a # nameids) recs = set_nameids nameids (setName recs s n 3 1 0x409)"
    by (simp add: set_nameids_def a)
  then show ?case
    using Cons [of "setName recs s n 3 1 0x409"]
    by (auto simp: a getName_setName map_add_def split: option.splits)
qed

lemma name_string_set_nameids:
  "name_string (f\<lparr>names := set_nameids nameids recs\<rparr>) k =
     (case map_of (rev nameids) k of
        Some s \<Rightarrow> Some s
      | None \<Rightarrow> name_string (f\<lparr>names := recs\<rparr>) k)"
  by (simp add: name_string_def getName_set_nameids del: One_nat_def split: option.splits)

lemma name_string_removed:
  "name_string (f\<lparr>names := removeNames_nameID (removeNames_nameID recs 16) 17\<rparr>) 16 = None"
  "name_string (f\<lparr>names := removeNames_nameID (removeNames_nameID recs 16) 17\<rparr>) 17 = None"
  by (auto simp: name_string_def getName_def removeNames_nameID_def find_None_iff)

text \<open>The dictionary of names when the style is not one of the four RIBBI ones.\<close>

lemma nameids_of_non_ribbi:
  assumes "style_name \<notin> {''Regular'', ''Bold'', ''Italic'', ''Bold Italic''}"
  shows "nameids_of kw family_name style_name =
     [(1, strip (family_name @ '' '' @ join '' '' (filter (\<lambda>t. t \<noteq> ''Italic'') (split style_name)))),
      (2, if ''Italic'' \<in> set (split style_name) then ''Italic'' else ''Regular''),
      (16, strip (family_name @ '' '' @
             join '' '' (filter (\<lambda>t. t \<notin> weight_vocabulary kw \<and> t \<noteq> ''Italic'') (split style_name)))),
      (17, join '' '' (filter (\<lambda>t. t \<in> weight_vocabulary kw \<or> t = ''Italic'') (split style_name)))]"
  using assms by (simp add: nameids_of_def Let_def weight_vocabulary_def conj_commute disj_commute)

lemma nameids_of_ribbi:
  assumes "style_name \<in> {''Regular'', ''Bold'', ''Italic'', ''Bold Italic''}"
  shows "nameids_of kw family_name style_name = [(1, family_name), (2, style_name)]"
  using assms by (simp add: nameids_of_def)

text \<open>
  What a run of \<^verbatim>\<open>update_nametable\<close> with both names given leaves: the names of the
  dictionary, and no other record with nameID 16 or 17.
\<close>

lemma update_nametable_names:
  assumes "fvar ttFont = None" and "family_name \<noteq> []" and "style_name \<noteq> []"
    and "font_familyname (prune_names ttFont) = Inr current"
  shows "\<exists>f. update_nametable kw ttFont (Some family_name) (Some style_name) = Inr f \<and>
     (\<forall>k\<in>{1, 2, 16, 17}. name_string f k = map_of (nameids_of kw family_name style_name) k)"
proof (cases "style_name \<in> {''Regular'', ''Bold'', ''Italic'', ''Bold Italic''}")
  case True
  show ?thesis
    using assms
    by (simp add: update_nametable_def Let_def arg_or_def nameids_of_ribbi [OF True] get_or_def
        unique_name_def name_string_set_nameids name_string_removed)
next
  case False
  show ?thesis
    using assms
    by (simp add: update_nametable_def Let_def arg_or_def nameids_of_non_ribbi [OF False] get_or_def
        unique_name_def name_string_set_nameids)
qed

text \<open>
  C6. For a static font and a style name that is not one of Regular, Bold, Italic and
  Bold Italic, \<^verbatim>\<open>update_nametable\<close> returns whenever the font, once the records of
  other platforms and the records with line breaks are gone, has a family name; and
  then nameID 2 is Italic when the style has the token Italic and Regular otherwise,
  nameID 1 is the family name followed by the tokens other than Italic, nameID 16 is
  the family name followed by the tokens that are neither weight names nor Italic,
  and nameID 17 is the tokens that are weight names or Italic, in their order and
  joined by spaces (the names with the family are stripped). In particular, when
  SemiBold is a weight name and Condensed is not, the family Noto Sans with the style
  Condensed SemiBold gets Noto Sans Condensed SemiBold, Regular, Noto Sans Condensed
  and SemiBold.
\<close>

theorem update_nametable_non_ribbi:
  assumes "fvar ttFont = None" and "family_name \<noteq> []" and "style_name \<noteq> []"
    and "font_familyname (prune_names ttFont) = Inr current"
    and "style_name \<notin> {''Regular'', ''Bold'', ''Italic'', ''Bold Italic''}"
  shows "\<exists>f. update_nametable kw ttFont (Some family_name) (Some style_name) = Inr f
     \<and> name_string f 2 = Some (if ''Italic'' \<in> set (split style_name) then ''Italic'' else ''Regular'')
     \<and> name_string f 1 =
         Some (strip (family_name @ '' '' @
                 join '' '' (filter (\<lambda>t. t \<noteq> ''Italic'') (split style_name))))
     \<and> name_string f 16 =
         Some (strip (family_name @ '' '' @
                 join '' '' (filter (\<lambda>t. t \<notin> weight_vocabulary kw \<and> t \<noteq> ''Italic'')
                              (split style_name))))
     \<and> name_string f 17 =
         Some (join '' '' (filter (\<lambda>t. t \<in> weight_vocabulary kw \<or> t = ''Italic'') (split style_name)))
     \<and> (family_name = ''Noto Sans'' \<and> style_name = ''Condensed SemiBold''
          \<and> ''SemiBold'' \<in> weight_vocabulary kw \<and> ''Condensed'' \<notin> weight_vocabulary kw
        \<longrightarrow> name_string f 1 = Some ''Noto Sans Condensed SemiBold''
          \<and> name_string f 2 = Some ''Regular''
          \<and> name_string f 16 = Some ''Noto Sans Condensed''
          \<and> name_string f 17 = Some ''SemiBold'')"
proof -
  from update_nametable_names [OF assms(1-4), of kw]
  obtain f where f: "update_nametable kw ttFont (Some family_name) (Some style_name) = Inr f"
    and n: "\<forall>k\<in>{1, 2, 16, 17}. name_string f k = map_of (nameids_of kw family_name style_name) k"
    by blast
  have n1: "name_string f 1 =
         Some (strip (family_name @ '' '' @
                 join '' '' (filter (\<lambda>t. t \<noteq> ''Italic'') (split style_name))))"
    and n2: "name_string f 2 = Some (if ''Italic'' \<in> set (split style_name) then ''Italic'' else ''Regular'')"
    and n16: "name_string f 16 =
         Some (strip (family_name @ '' '' @
                 join '' '' (filter (\<lambda>t. t \<notin> weight_vocabulary kw \<and> t \<noteq> ''Italic'')
                              (split style_name))))"
    and n17: "name_string f 17 =
         Some (join '' '' (filter (\<lambda>t. t \<in> weight_vocabulary kw \<or> t = ''Italic'') (split style_name)))"
    using n by (simp_all add: nameids_of_non_ribbi [OF assms(5)])
  have tokens: "split ''Condensed SemiBold'' = [''Condensed'', ''SemiBold'']"
    by (simp add: split_def is_space_def)
  have particular: "name_string f 1 = Some ''Noto Sans Condensed SemiBold''
          \<and> name_string f 2 = Some ''Regular''
          \<and> name_string f 16 = Some ''Noto Sans Condensed''
          \<and> name_string f 17 = Some ''SemiBold''"
    if "family_name = ''Noto Sans''" "style_name = ''Condensed SemiBold''"
      "''SemiBold'' \<in> weight_vocabulary kw" "''Condensed'' \<notin> weight_vocabulary kw"
    using that n1 n2 n16 n17 by (simp add: tokens strip_def is_space_def)
  show ?thesis
    using f n1 n2 n16 n17 particular by blast
qed

lemmas name_defs =
  update_nametable_def fix_nametable_def prune_names_def remove_linebreaks_def
  contains_linebreaks_def remove_platforms_def platforms_to_remove_def removeNames_nameID_def
  arg_or_def nameids_of_def get_or_def unique_name_def font_version_def set_nameids_def
  str_replace_def strip_def split_def is_space_def WEIGHT_NAMES_def known_weights_def
  font_familyname_def font_stylename_def get_name_record_def getName_def truthy_id_def
  static_font_def example_font_def win_name_def

theorem update_nametable_non_ribbi_witness:
  "fvar (static_font ''Noto Sans'' ''Regular'') = None
   \<and> font_familyname (prune_names (static_font ''Noto Sans'' ''Regular'')) = Inr ''Noto Sans''
   \<and> ''SemiBold'' \<in> weight_vocabulary known_weights
   \<and> ''Condensed'' \<notin> weight_vocabulary known_weights
   \<and> (\<exists>f. update_nametable known_weights (static_font ''Noto Sans'' ''Regular'')
               (Some ''Noto Sans'') (Some ''Condensed SemiBold'') = Inr f
          \<and> name_string f 1 = Some ''Noto Sans Condensed SemiBold''
          \<and> name_string f 2 = Some ''Regular''
          \<and> name_string f 16 = Some ''Noto Sans Condensed''
          \<and> name_string f 17 = Some ''SemiBold'')"
proof -
  have 1: "fvar (static_font ''Noto Sans'' ''Regular'') = None"
    by (simp add: static_font_def example_font_def)
  have 2: "font_familyname (prune_names (static_font ''Noto Sans'' ''Regular'')) = Inr ''Noto Sans''"
    by (simp add: name_defs)
  have 3: "''SemiBold'' \<in> weight_vocabulary known_weights"
    and 4: "''Condensed'' \<notin> weight_vocabulary known_weights"
    by (simp_all add: weight_vocabulary_def WEIGHT_NAMES_def known_weights_def)
  have 5: "''Condensed SemiBold'' \<notin> {''Regular'', ''Bold'', ''Italic'', ''Bold Italic''}"
    by simp
  from update_nametable_non_ribbi [OF 1 _ _ 2 5, of "''Noto Sans''" known_weights] 3 4
  show ?thesis
    using 1 2 by auto
qed

subsection \<open>Applying the name fix twice\<close>

lemma update_nametable_Inr:
  assumes "update_nametable kw ttFont (Some family_name) (Some style_name) = Inr f"
    and "family_name \<noteq> []" and "style_name \<noteq> []"
  shows "fvar ttFont = None" and "fvar f = None"
    and "\<exists>current. font_familyname (prune_names ttFont) = Inr current"
    and "\<forall>k\<in>{1, 2, 16, 17}. name_string f k = map_of (nameids_of kw family_name style_name) k"
proof -
  show 1: "fvar ttFont = None"
    using assms(1) by (auto simp: update_nametable_def split: if_splits)
  show "fvar f = None"
    using assms 1
    by (auto simp: update_nametable_def Let_def arg_or_def prune_names_def
        split: if_splits sum.splits option.splits prod.splits)
  show "\<exists>current. font_familyname (prune_names ttFont) = Inr current"
    using assms 1
    by (auto simp: update_nametable_def Let_def arg_or_def
        split: if_splits sum.splits option.splits prod.splits)
  then show "\<forall>k\<in>{1, 2, 16, 17}. name_string f k = map_of (nameids_of kw family_name style_name) k"
    using update_nametable_names [OF 1 assms(2,3), of _ kw] assms(1) by auto
qed

lemma get_name_record_name_string:
  "get_name_record f n (Some fb) =
     (case name_string f n of
        Some s \<Rightarrow> Inr s
      | None \<Rightarrow> (case (if fb = 0 then None else name_string f fb) of
                   Some s \<Rightarrow> Inr s
                 | None \<Rightarrow> Inl (Cannot_find_record n)))"
  by (auto simp: get_name_record_def name_string_def truthy_id_def Let_def split: option.splits)

lemma strip_append_space:
  "strip (s @ '' '') = strip s"
proof (cases "\<forall>c\<in>set s. is_space c")
  case True
  have sp: "is_space CHR '' ''"
    by (simp add: is_space_def)
  have "dropWhile is_space s = []"
    using True by simp
  moreover have "dropWhile is_space (s @ '' '') = []"
    unfolding dropWhile_eq_Nil_conv using True sp by simp
  ultimately show ?thesis by (simp only: strip_def)
next
  case False
  then have "dropWhile is_space (s @ '' '') = dropWhile is_space s @ '' ''"
    by (auto simp: dropWhile_append1)
  then show ?thesis by (simp add: strip_def is_space_def)
qed

text \<open>
  C9, as amended. Let the style name be its whitespace tokens joined by single
  spaces, every token a weight name or Italic, and let the family name be non-empty
  with no white space at its ends. When \<^verbatim>\<open>update_nametable\<close> returns for them, and the
  name fix applied to the font it leaves (family and style read from that font) returns
  too, then the second run leaves the names 1, 2, 16 and 17 as the first one set them.
\<close>

theorem fix_nametable_idempotent:
  assumes "update_nametable kw ttFont (Some family_name) (Some style_name) = Inr f1"
    and "fix_nametable kw f1 = Inr f2"
    and "family_name \<noteq> []" and "strip family_name = family_name"
    and "style_name \<noteq> []" and "join '' '' (split style_name) = style_name"
    and "set (split style_name) \<subseteq> weight_vocabulary kw \<union> {''Italic''}"
  shows "map (name_string f2) [1, 2, 16, 17] = map (name_string f1) [1, 2, 16, 17]"
proof -
  let ?ids = "nameids_of kw family_name style_name"
  have static: "fvar f1 = None"
    and names1: "\<forall>k\<in>{1, 2, 16, 17}. name_string f1 k = map_of ?ids k"
    using update_nametable_Inr [OF assms(1,3,5)] by blast+
  have read: "font_familyname f1 = Inr family_name \<and> font_stylename f1 = Inr style_name"
  proof (cases "style_name \<in> {''Regular'', ''Bold'', ''Italic'', ''Bold Italic''}")
    case True
    have "name_string f1 16 = None" "name_string f1 17 = None"
      "name_string f1 1 = Some family_name" "name_string f1 2 = Some style_name"
      using names1 by (simp_all add: nameids_of_ribbi [OF True])
    then show ?thesis
      by (simp add: font_familyname_def font_stylename_def get_name_record_name_string)
  next
    case False
    have none: "filter (\<lambda>t. t \<notin> weight_vocabulary kw \<and> t \<noteq> ''Italic'') (split style_name) = []"
      using assms(7) by (auto simp: filter_empty_conv)
    have all: "filter (\<lambda>t. t \<in> weight_vocabulary kw \<or> t = ''Italic'') (split style_name)
                 = split style_name"
      using assms(7) by (auto simp: filter_id_conv)
    have "strip (family_name @ '' '' @ join '' '' []) = family_name"
      using strip_append_space [of family_name] assms(4) by simp
    then have "name_string f1 16 = Some family_name" "name_string f1 17 = Some style_name"
      using names1 by (simp_all add: nameids_of_non_ribbi [OF False] none all assms(6))
    then show ?thesis
      by (simp add: font_familyname_def font_stylename_def get_name_record_name_string)
  qed
  then have "update_nametable kw f1 (Some family_name) (Some style_name) = Inr f2"
    using assms(2) static by (simp add: fix_nametable_def)
  from update_nametable_Inr(4) [OF this assms(3,5)]
  have "\<forall>k\<in>{1, 2, 16, 17}. name_string f2 k = map_of ?ids k" .
  then show ?thesis
    using names1 by simp
qed

theorem fix_nametable_idempotent_witness:
  "update_nametable known_weights (static_font ''Fam'' ''Regular'') (Some ''Fam'') (Some ''SemiBold Italic'')
     = Inr (example_font
         [win_name 1 ''Fam SemiBold'', win_name 2 ''Italic'', win_name 16 ''Fam'',
          win_name 17 ''SemiBold Italic'', win_name 4 ''Fam SemiBold Italic'',
          win_name 6 ''Fam-SemiBoldItalic'', win_name 3 ''1.000;TEST;Fam-SemiBoldItalic''])
   \<and> fix_nametable known_weights (example_font
         [win_name 1 ''Fam SemiBold'', win_name 2 ''Italic'', win_name 16 ''Fam'',
          win_name 17 ''SemiBold Italic'', win_name 4 ''Fam SemiBold Italic'',
          win_name 6 ''Fam-SemiBoldItalic'', win_name 3 ''1.000;TEST;Fam-SemiBoldItalic''])
     = Inr (example_font
         [win_name 1 ''Fam SemiBold'', win_name 2 ''Italic'', win_name 4 ''Fam SemiBold Italic'',
          win_name 6 ''Fam-SemiBoldItalic'', win_name 3 ''1.000;TEST;Fam-SemiBoldItalic'',
          win_name 16 ''Fam'', win_name 17 ''SemiBold Italic''])
   \<and> strip ''Fam'' = ''Fam''
   \<and> join '' '' (split ''SemiBold Italic'') = ''SemiBold Italic''
   \<and> set (split ''SemiBold Italic'') \<subseteq> weight_vocabulary known_weights \<union> {''Italic''}
   \<and> map (name_string (example_font
         [win_name 1 ''Fam SemiBold'', win_name 2 ''Italic'', win_name 4 ''Fam SemiBold Italic'',
          win_name 6 ''Fam-SemiBoldItalic'', win_name 3 ''1.000;TEST;Fam-SemiBoldItalic'',
          win_name 16 ''Fam'', win_name 17 ''SemiBold Italic''])) [1, 2, 16, 17]
      = [Some ''Fam SemiBold'', Some ''Italic'', Some ''Fam'', Some ''SemiBold Italic'']"
proof -
  let ?f1 = "example_font
         [win_name 1 ''Fam SemiBold'', win_name 2 ''Italic'', win_name 16 ''Fam'',
          win_name 17 ''SemiBold Italic'', win_name 4 ''Fam SemiBold Italic'',
          win_name 6 ''Fam-SemiBoldItalic'', win_name 3 ''1.000;TEST;Fam-SemiBoldItalic'']"
  let ?f2 = "example_font
         [win_name 1 ''Fam SemiBold'', win_name 2 ''Italic'', win_name 4 ''Fam SemiBold Italic'',
          win_name 6 ''Fam-SemiBoldItalic'', win_name 3 ''1.000;TEST;Fam-SemiBoldItalic'',
          win_name 16 ''Fam'', win_name 17 ''SemiBold Italic'']"
  have 1: "update_nametable known_weights (static_font ''Fam'' ''Regular'') (Some ''Fam'')
             (Some ''SemiBold Italic'') = Inr ?f1"
    by code_simp
  have 2: "fix_nametable known_weights ?f1 = Inr ?f2"
    by code_simp
  have 4: "strip ''Fam'' = ''Fam''"
    by (simp add: strip_def is_space_def)
  have 6: "join '' '' (split ''SemiBold Italic'') = ''SemiBold Italic''"
    by (simp add: split_def is_space_def)
  have 7: "set (split ''SemiBold Italic'') \<subseteq> weight_vocabulary known_weights \<union> {''Italic''}"
    by (simp add: split_def is_space_def weight_vocabulary_def WEIGHT_NAMES_def known_weights_def)
  have "map (name_string ?f2) [1, 2, 16, 17]
      = [Some ''Fam SemiBold'', Some ''Italic'', Some ''Fam'', Some ''SemiBold Italic'']"
    using fix_nametable_idempotent [OF 1 2 _ 4 _ 6 7]
    by (simp add: name_string_def getName_def example_font_def win_name_def)
  then show ?thesis
    using 1 2 4 6 7 by simp
qed

text \<open>
  C9, the counterexample. The style name Bold, two spaces, Italic has the tokens Bold
  and Italic only, and is not one of the four RIBBI strings; the names it gets are
  those of a style outside RIBBI. The style read back from them is Bold Italic, which is
  RIBBI: the second run sets other names 1 and 2 and leaves no names 16 and 17.
\<close>

theorem fix_nametable_not_idempotent:
  "update_nametable known_weights (static_font ''Fam'' ''Regular'') (Some ''Fam'') (Some ''Bold  Italic'')
     = Inr (example_font
         [win_name 1 ''Fam Bold'', win_name 2 ''Italic'', win_name 16 ''Fam'',
          win_name 17 ''Bold Italic'', win_name 4 ''Fam Bold Italic'',
          win_name 6 ''Fam-BoldItalic'', win_name 3 ''1.000;TEST;Fam-BoldItalic''])
   \<and> fix_nametable known_weights (example_font
         [win_name 1 ''Fam Bold'', win_name 2 ''Italic'', win_name 16 ''Fam'',
          win_name 17 ''Bold Italic'', win_name 4 ''Fam Bold Italic'',
          win_name 6 ''Fam-BoldItalic'', win_name 3 ''1.000;TEST;Fam-BoldItalic''])
     = Inr (example_font
         [win_name 1 ''Fam'', win_name 2 ''Bold Italic'', win_name 4 ''Fam Bold Italic'',
          win_name 6 ''Fam-BoldItalic'', win_name 3 ''1.000;TEST;Fam-BoldItalic''])"
  by code_simp

subsection \<open>No fix writes a STAT table\<close>

lemma map_STAT_update:
  assumes "j < length fs \<Longrightarrow> STAT x = STAT (fs ! j)"
  shows "map STAT (fs[j := x]) = map STAT fs"
proof (cases "j < length fs")
  case True
  then show ?thesis
    using assms by (simp add: map_update list_update_same_conv)
next
  case False
  then show ?thesis
    by (metis list_update_beyond linorder_not_less)
qed

lemma STAT_copy_vertical_metrics: "STAT (copy_vertical_metrics s d) = STAT d"
  by (simp add: copy_vertical_metrics_def)

lemma map_STAT_copy_loop: "map STAT (copy_loop i js fs) = map STAT fs"
proof (induction js arbitrary: fs)
  case Nil
  then show ?case by simp
next
  case (Cons j js)
  let ?fs1 = "fs[j := (fs ! j)\<lparr>fsSelection := fsSelection (fs ! j) OR push_bit 7 1\<rparr>]"
  let ?fs2 = "?fs1[j := copy_vertical_metrics (?fs1 ! i) (?fs1 ! j)]"
  have "map STAT ?fs1 = map STAT fs"
    by (rule map_STAT_update) simp
  moreover have "map STAT ?fs2 = map STAT ?fs1"
    by (rule map_STAT_update) (simp add: STAT_copy_vertical_metrics)
  moreover have "copy_loop i (j # js) fs = copy_loop i js ?fs2"
    by (simp add: Let_def)
  ultimately show ?case
    using Cons [of ?fs2] by simp
qed

lemma fix_vertical_metrics_STAT:
  assumes "fix_vertical_metrics ttFonts = Inr fs"
  shows "map STAT fs = map STAT ttFonts"
proof -
  have ne: "ttFonts \<noteq> []"
    using assms by (auto simp: fix_vertical_metrics_def)
  obtain r where r: "find_regular ttFonts 0 = Inr r"
    using assms ne by (auto simp: fix_vertical_metrics_def split: sum.splits)
  define i where "i = (case r of Some i \<Rightarrow> i | None \<Rightarrow> 0)"
  define src0 where "src0 = (if \<not> typo_metrics_enabled (ttFonts ! i)
        then (ttFonts ! i)\<lparr>fsSelection := fsSelection (ttFonts ! i) OR push_bit 7 1,
                              sTypoAscender := usWinAscent (ttFonts ! i),
                              sTypoDescender := - usWinDescent (ttFonts ! i),
                              sTypoLineGap := 0\<rparr>
        else ttFonts ! i)"
  define src1 where "src1 = src0\<lparr>ascent := sTypoAscender src0, descent := sTypoDescender src0,
                                  lineGap := sTypoLineGap src0\<rparr>"
  obtain win_desc win_asc where bb: "family_bounding_box (ttFonts[i := src1]) = Inr (win_desc, win_asc)"
    using family_bounding_box_nonempty [of "ttFonts[i := src1]"] ne by auto
  define src2 where "src2 = src1\<lparr>usWinAscent := win_asc, usWinDescent := \<bar>win_desc\<bar>\<rparr>"
  have "fix_vertical_metrics ttFonts = Inr (copy_loop i [0..<length ttFonts] (ttFonts[i := src2]))"
    using ne r bb
    by (simp add: fix_vertical_metrics_def Let_def i_def [symmetric] src0_def [symmetric]
          src1_def [symmetric] src2_def [symmetric])
  then have fs: "fs = copy_loop i [0..<length ttFonts] (ttFonts[i := src2])"
    using assms by simp
  have "STAT src2 = STAT (ttFonts ! i)"
    by (simp add: src2_def src1_def src0_def)
  then have "map STAT (ttFonts[i := src2]) = map STAT ttFonts"
    by (intro map_STAT_update)
  then show ?thesis
    by (simp add: fs map_STAT_copy_loop)
qed

lemma update_nametable_STAT:
  assumes "update_nametable kw ttFont family_name style_name = Inr f"
  shows "STAT f = STAT ttFont"
  using assms
  by (auto simp: update_nametable_def Let_def prune_names_def
      split: if_splits sum.splits option.splits prod.splits)

lemma fix_nametable_STAT:
  assumes "fix_nametable kw ttFont = Inr f"
  shows "STAT f = STAT ttFont"
  using assms update_nametable_STAT
  by (auto simp: fix_nametable_def split: if_splits sum.splits)

lemma remove_tables_STAT: "STAT (remove_tables ttFont tables) = STAT ttFont"
  by (simp add: remove_tables_def Let_def)

lemma fix_fs_selection_STAT: "fix_fs_selection ttFont = Inr f \<Longrightarrow> STAT f = STAT ttFont"
  by (auto simp: fix_fs_selection_def Let_def split: sum.splits)

lemma fix_mac_style_STAT: "fix_mac_style ttFont = Inr f \<Longrightarrow> STAT f = STAT ttFont"
  by (auto simp: fix_mac_style_def Let_def split: sum.splits)

lemma fix_weight_class_STAT: "fix_weight_class kw ttFont = Inr f \<Longrightarrow> STAT f = STAT ttFont"
  by (auto simp: fix_weight_class_def Let_def split: sum.splits option.splits if_splits)

lemma fix_italic_angle_STAT: "fix_italic_angle ttFont = Inr f \<Longrightarrow> STAT f = STAT ttFont"
  by (auto simp: fix_italic_angle_def split: sum.splits if_splits)

lemma fix_fvar_instances_STAT: "fix_fvar_instances kw ttFont = Inr f \<Longrightarrow> STAT f = STAT ttFont"
  by (auto simp: fix_fvar_instances_def Let_def
      split: sum.splits option.splits if_splits prod.splits)

lemma source_fixes_STAT:
  assumes "source_fixes kw font = Inr f"
  shows "STAT f = STAT font"
proof -
  from assms obtain f1 f2 f3 f4 f5 where
    "fix_nametable kw (remove_tables font None) = Inr f1"
    "fix_fs_selection (fix_fs_type f1) = Inr f2"
    "fix_mac_style f2 = Inr f3"
    "fix_weight_class kw f3 = Inr f4"
    "fix_italic_angle f4 = Inr f5"
    "f = f5 \<or> fix_fvar_instances kw f5 = Inr f"
    by (auto simp: source_fixes_def split: sum.splits if_splits)
  then show ?thesis
    using fix_nametable_STAT [of kw "remove_tables font None" f1]
      fix_fs_selection_STAT [of "fix_fs_type f1" f2] fix_mac_style_STAT [of f2 f3]
      fix_weight_class_STAT [of kw f3 f4] fix_italic_angle_STAT [of f4 f5]
      fix_fvar_instances_STAT [of kw f5 f]
    by (auto simp: remove_tables_STAT fix_fs_type_def)
qed

lemma fix_font_STAT:
  assumes "fix_font kw font include_source_fixes = Inr f"
  shows "STAT f = STAT font"
proof -
  define font1 where "font1 = font\<lparr>os2_version := 4\<rparr>"
  define font2 where "font2 = (if DSIG font1 = None then add_dummy_dsig font1 else font1)"
  define font3 where "font3 =
    (if ''fpgm'' \<in> font_keys font2 then fix_hinted_font font2 else fix_unhinted_font font2)"
  define font4 where "font4 = (if fvar font3 \<noteq> None then remove_tables font3 (Some [''MVAR'']) else font3)"
  have "STAT font4 = STAT font"
    by (simp add: font4_def font3_def font2_def font1_def remove_tables_STAT add_dummy_dsig_def
        fix_hinted_font_def fix_unhinted_font_def)
  moreover have "fix_font kw font include_source_fixes =
      (if include_source_fixes then source_fixes kw font4 else Inr font4)"
    by (auto simp: fix_font_def Let_def font4_def font3_def font2_def font1_def)
  ultimately show ?thesis
    using source_fixes_STAT [of kw font4 f] assms by (auto split: if_splits)
qed

lemma for_each_Inr:
  "for_each g xs = Inr ys \<Longrightarrow> map g xs = map Inr ys"
  by (induction xs arbitrary: ys) (auto split: sum.splits)

lemma for_each_fix_font_STAT:
  assumes "for_each (\<lambda>font. fix_font kw font b) fonts = Inr fixed"
  shows "map STAT fixed = map STAT fonts"
proof -
  have eq: "map (\<lambda>font. fix_font kw font b) fonts = map Inr fixed"
    using for_each_Inr [OF assms] .
  then have len: "length fixed = length fonts"
    by (metis length_map)
  have "STAT (fixed ! i) = STAT (fonts ! i)" if "i < length fonts" for i
  proof -
    have "fix_font kw (fonts ! i) b = Inr (fixed ! i)"
      using eq that len by (metis nth_map)
    then show ?thesis by (rule fix_font_STAT)
  qed
  then show ?thesis
    using len by (simp add: list_eq_iff_nth_eq)
qed

lemma map_STAT_fold_update:
  assumes "\<And>style src d. STAT (h style d) = STAT d"
  shows "map STAT (fold (\<lambda>(style, i) fs. fs[i := h style (fs ! i)]) items fs) = map STAT fs"
proof (induction items arbitrary: fs)
  case Nil
  then show ?case by simp
next
  case (Cons a items)
  obtain style i where a: "a = (style, i)" by (cases a)
  have "map STAT (fs[i := h style (fs ! i)]) = map STAT fs"
    by (rule map_STAT_update) (simp add: assms)
  then show ?case
    using Cons [of "fs[i := h style (fs ! i)]"] by (simp add: a)
qed

lemma inherit_loop_STAT:
  "map STAT (inherit_loop gf_fonts gf_fallback items ttFonts) = map STAT ttFonts"
proof -
  define h where "h style d =
      (let src_font = (case map_of gf_fonts style of Some f \<Rightarrow> f | None \<Rightarrow> gf_fallback);
           font = copy_vertical_metrics src_font d
       in if typo_metrics_enabled src_font
          then font\<lparr>fsSelection := fsSelection font OR push_bit 7 1\<rparr> else font)" for style d
  have "inherit_loop gf_fonts gf_fallback items ttFonts
          = fold (\<lambda>(style, i) fs. fs[i := h style (fs ! i)]) items ttFonts"
    by (simp add: inherit_loop_def h_def Let_def)
  moreover have "STAT (h style d) = STAT d" for style d
    by (simp add: h_def Let_def STAT_copy_vertical_metrics)
  ultimately show ?thesis
    using map_STAT_fold_update [of h items ttFonts] by simp
qed

lemma inherit_vertical_metrics_STAT:
  assumes "inherit_vertical_metrics download ttFonts family_name = Inr fs"
  shows "map STAT fs = map STAT ttFonts"
proof -
  from assms obtain gf_fonts gf_fallback items where
    "fs = inherit_loop gf_fonts gf_fallback items ttFonts"
    by (auto simp: inherit_vertical_metrics_def Let_def split: sum.splits list.splits)
  then show ?thesis
    by (simp add: inherit_loop_STAT)
qed

subsection \<open>The fixes of a family\<close>

text \<open>
  C5, as amended. When \<^verbatim>\<open>fix_family\<close> with the source fixes returns: the family is
  not empty and its first font has a family name; every font has been through
  \<^verbatim>\<open>fix_font\<close>, which makes the structural fixes and then, font by font, the fixes of
  the name table and of the other fields; the metrics of the reference family are
  taken only when the family is on Google Fonts, and the fonts stay as they are when
  it is not, or when FileNotFoundError is raised; the harmonization of the vertical
  metrics is the last step; and no step writes a STAT table: every font has the STAT
  table it came with.
\<close>

theorem fix_family_source_fixes:
  assumes "fix_family kw has_family download fonts True = Inr fonts'"
  shows "\<exists>family_name fixed mid.
       fonts \<noteq> [] \<and> font_familyname (hd fonts) = Inr family_name
     \<and> map (\<lambda>font. fix_font kw font True) fonts = map Inr fixed
     \<and> (if has_family family_name = Inr True
        then inherit_vertical_metrics download fixed None = Inr mid
             \<or> inherit_vertical_metrics download fixed None = Inl FileNotFoundError \<and> mid = fixed
        else (has_family family_name = Inr False \<or> has_family family_name = Inl FileNotFoundError)
             \<and> mid = fixed)
     \<and> fix_vertical_metrics mid = Inr fonts'
     \<and> map STAT fonts' = map STAT fonts"
proof -
  from assms obtain family_name fixed where
    ne: "fonts \<noteq> []" and fam: "font_familyname (hd fonts) = Inr family_name"
    and fixed: "for_each (\<lambda>font. fix_font kw font True) fonts = Inr fixed"
    by (auto simp: fix_family_def split: sum.splits list.splits)
  define pulled where "pulled =
    (case has_family family_name of
       Inl e \<Rightarrow> Inl e
     | Inr on_gf \<Rightarrow> if on_gf then inherit_vertical_metrics download fixed None else Inr fixed)"
  have run: "(case pulled of
               Inl e \<Rightarrow> if e = FileNotFoundError then fix_vertical_metrics fixed else Inl e
             | Inr fonts \<Rightarrow> fix_vertical_metrics fonts) = Inr fonts'"
    using assms ne fam fixed
    by (auto simp: fix_family_def pulled_def split: sum.splits list.splits)
  define mid where "mid = (case pulled of Inl e \<Rightarrow> fixed | Inr fonts \<Rightarrow> fonts)"
  have last: "fix_vertical_metrics mid = Inr fonts'"
    using run by (auto simp: mid_def split: sum.splits if_splits)
  have caught: "pulled = Inl FileNotFoundError \<or> (\<exists>fs. pulled = Inr fs)"
    using run by (auto split: sum.splits if_splits)
  have branch: "if has_family family_name = Inr True
        then inherit_vertical_metrics download fixed None = Inr mid
             \<or> inherit_vertical_metrics download fixed None = Inl FileNotFoundError \<and> mid = fixed
        else (has_family family_name = Inr False \<or> has_family family_name = Inl FileNotFoundError)
             \<and> mid = fixed"
    using caught by (auto simp: pulled_def mid_def split: sum.splits if_splits)
  have "map STAT mid = map STAT fixed"
    using inherit_vertical_metrics_STAT [of download fixed None]
    by (auto simp: mid_def pulled_def split: sum.splits if_splits)
  then have "map STAT fonts' = map STAT fonts"
    using fix_vertical_metrics_STAT [OF last] for_each_fix_font_STAT [OF fixed] by simp
  then show ?thesis
    using ne fam for_each_Inr [OF fixed] branch last by blast
qed

theorem fix_family_source_fixes_witness:
  "\<exists>fonts' fixed.
       fix_family known_weights (\<lambda>family_name. Inl FileNotFoundError) (\<lambda>family_name. Inr [])
         example_family True = Inr fonts'
     \<and> font_familyname (hd example_family) = Inr ''Fam''
     \<and> map (\<lambda>font. fix_font known_weights font True) example_family = map Inr fixed
     \<and> fix_vertical_metrics fixed = Inr fonts'
     \<and> map STAT fonts' = [None, None]"
proof -
  let ?run = "fix_family known_weights (\<lambda>family_name. Inl FileNotFoundError)
                (\<lambda>family_name. Inr []) example_family True"
  have "(case ?run of Inl e \<Rightarrow> False | Inr fonts' \<Rightarrow> True)"
    by code_simp
  then obtain fonts' where run: "?run = Inr fonts'"
    by (cases ?run) auto
  have stat: "map STAT example_family = [None, None]"
    by (simp add: example_font_defs)
  from fix_family_source_fixes [OF run] obtain family_name fixed mid where
    "font_familyname (hd example_family) = Inr family_name"
    "map (\<lambda>font. fix_font known_weights font True) example_family = map Inr fixed"
    "mid = fixed" "fix_vertical_metrics mid = Inr fonts'"
    "map STAT fonts' = map STAT example_family"
    by (auto split: if_splits)
  moreover have "font_familyname (hd example_family) = Inr ''Fam''"
    by (simp add: example_font_defs)
  ultimately show ?thesis
    using run stat by auto
qed

text \<open>
  C5, the counterexample. A family of two variable fonts goes through \<^verbatim>\<open>fix_family\<close>
  with the source fixes and comes out without a STAT table in any font, while
  \<^verbatim>\<open>gen_stat_tables\<close> gives each font of this family a table.
\<close>

theorem fix_family_writes_no_STAT:
  "map_sum id (map STAT)
     (fix_family known_weights (\<lambda>family_name. Inr False) (\<lambda>family_name. Inr [])
        family_regular_italic True)
     = Inr [None, None]
   \<and> map (\<lambda>f. STAT f = None)
       (fst (gen_stat_tables example_registry family_regular_italic [''wght'', ''ital''] None
               example_registry))
     = [False, False]"
  by code_simp

end
